theory Spec2Isabelle
  imports Main
begin

section \<open>Data model (registry.mjs, lock.mjs)\<close>

text \<open>
  A lease as written by \<open>addLease\<close> and read back from \<open>registry.json\<close>. Time stamps are
  milliseconds since the epoch (what \<open>new Date(s).getTime()\<close> yields for the stored ISO
  string); \<open>leasedAt = None\<close> stands for a stored value that is empty or does not parse, for
  which \<open>findStaleLeases\<close> never takes the age branch. A number is an \<open>int\<close>: the integer a
  JavaScript number holds; from \<open>2^53\<close> on only some integers are such numbers, which
  matters where the source adds (\<open>jsInc\<close> below). For a string \<open>s\<close> the JavaScript
  expression \<open>s || ''\<close> is \<open>s\<close> itself, so \<open>lease.tag || ''\<close> is the field \<open>tag\<close>.
\<close>

record lease =
  port :: int
  pool :: string
  "identifier" :: string
  worktreePath :: string
  tag :: string
  leasedAt :: "int option"

record pool_range =
  rangeStart :: int
  rangeEnd :: int

record registry =
  version :: string
  pools :: "string \<rightharpoonup> pool_range"
  leases :: "lease list"
  lastModified :: "int option"

text \<open>
  The part of the file system the program touches: the registry file (\<open>None\<close>: it does not
  exist), the lock marker with its modification time, and the wall clock.
\<close>

record fs =
  registryFile :: "registry option"
  lockFile :: "int option"
  clock :: int

text \<open>
  The external collaborators: the liveness probe (\<open>portChecker\<close>), \<open>existsSync\<close> on a
  worktree path, and the answer of \<open>git rev-parse --show-toplevel\<close> (\<open>None\<close>: not a
  repository).
\<close>

record env =
  portChecker :: "int \<Rightarrow> bool"
  existsSync :: "string \<Rightarrow> bool"
  gitToplevel :: "string option"

datatype errno = ENOENT | EEXIST

text \<open>One constructor per \<open>throw\<close> of the source, carrying what its message interpolates.\<close>

datatype error =
    PoolRequired
  | NoGitRepository
  | UnknownPool string
  | PoolExhausted string int int
  | PoolExhaustedUndefined string
  | NoLeaseWithTag string
  | NoLeasesForProject
  | PoolArgsRequired
  | RangeStartNotLess
  | PoolAlreadyExists string
  | PoolDoesNotExist string
  | LeasesOutsideRange nat
  | PoolHasLeases string nat
  | PoolNameRequired
  | LockTimeout int
  | FsError errno

datatype stale_reason = WorktreeMissing | OlderThanDays int

text \<open>
  The value of \<open>registry.pools[name]\<close>, a lookup in a plain object: the pool under an own
  key; for a name that \<open>Object.prototype\<close> defines, the inherited function or object, which
  is truthy and has neither \<open>rangeStart\<close> nor \<open>rangeEnd\<close>; \<open>undefined\<close> otherwise.
\<close>

datatype property = Own pool_range | Inherited | Missing

text \<open>
  An operation on the file system returns an error or a value, and the file system it
  leaves (\<open>io\<close>); one that may run forever returns \<open>None\<close> when it does (\<open>may\<close>).
\<close>

type_synonym 'a io = "fs \<Rightarrow> (error + 'a) \<times> fs"

type_synonym 'a may = "fs \<Rightarrow> ((error + 'a) \<times> fs) option"

section \<open>registry.mjs\<close>

definition getDefaultRegistry :: registry where
  "getDefaultRegistry =
     \<lparr>version = ''1.0'',
      pools = [''frontend'' \<mapsto> \<lparr>rangeStart = 3300, rangeEnd = 3499\<rparr>,
               ''backend'' \<mapsto> \<lparr>rangeStart = 5300, rangeEnd = 5499\<rparr>,
               ''storybook'' \<mapsto> \<lparr>rangeStart = 6300, rangeEnd = 6499\<rparr>],
      leases = [],
      lastModified = None\<rparr>"

text \<open>
  \<open>getRegistry\<close> writes the default registry when the file is missing. The content of an
  existing file is a registry: a file that \<open>JSON.parse\<close> rejects is outside the model.
\<close>

definition initRegistry :: "fs \<Rightarrow> registry \<times> fs" where
  "initRegistry s =
     (let r = getDefaultRegistry\<lparr>lastModified := Some (clock s)\<rparr>
      in (r, s\<lparr>registryFile := Some r\<rparr>))"

definition getRegistry :: "fs \<Rightarrow> registry \<times> fs" where
  "getRegistry s =
     (case registryFile s of
        None \<Rightarrow> initRegistry s
      | Some r \<Rightarrow> (r, s))"

definition saveRegistry :: "registry \<Rightarrow> fs \<Rightarrow> fs" where
  "saveRegistry r s = s\<lparr>registryFile := Some (r\<lparr>lastModified := Some (clock s)\<rparr>)\<rparr>"

text \<open>
  The names \<open>Object.prototype\<close> defines (\<open>Object.getOwnPropertyNames(Object.prototype)\<close>).
  \<open>pools\<close> holds the own keys of \<open>registry.pools\<close>: \<open>JSON.parse\<close> makes every key of the
  file an own key, \<open>__proto__\<close> included.
\<close>

definition objectPrototypeNames :: "string list" where
  "objectPrototypeNames =
     [''constructor'', ''__defineGetter__'', ''__defineSetter__'', ''hasOwnProperty'',
      ''__lookupGetter__'', ''__lookupSetter__'', ''isPrototypeOf'', ''propertyIsEnumerable'',
      ''toString'', ''valueOf'', ''__proto__'', ''toLocaleString'']"

text \<open>\<open>registry.pools[name]\<close>.\<close>

definition poolsGet :: "registry \<Rightarrow> string \<Rightarrow> property" where
  "poolsGet r name =
     (case pools r name of
        Some cfg \<Rightarrow> Own cfg
      | None \<Rightarrow> if name \<in> set objectPrototypeNames then Inherited else Missing)"

text \<open>
  \<open>registry.pools[name] = { rangeStart, rangeEnd }\<close>. The assignment defines or overwrites
  the own key, except for \<open>__proto__\<close> when it is not an own key: that assignment runs the
  setter of \<open>Object.prototype\<close>, which changes the prototype of \<open>registry.pools\<close> and
  defines no key, so that \<open>JSON.stringify\<close> writes the same pools.
\<close>

definition poolsSet :: "registry \<Rightarrow> string \<Rightarrow> pool_range \<Rightarrow> registry" where
  "poolsSet r name cfg =
     (if pools r name = None \<and> name = ''__proto__'' then r
      else r\<lparr>pools := (pools r)(name \<mapsto> cfg)\<rparr>)"

definition validatePool :: "registry \<Rightarrow> string \<Rightarrow> error + unit" where
  "validatePool r poolName =
     (if poolsGet r poolName = Missing then Inl (UnknownPool poolName) else Inr ())"

definition getExistingLease :: "registry \<Rightarrow> string \<Rightarrow> string \<Rightarrow> string \<Rightarrow> lease option" where
  "getExistingLease r ident poolName tg =
     find (\<lambda>l. identifier l = ident \<and> pool l = poolName \<and> tag l = tg) (leases r)"

definition getLeasedPorts :: "registry \<Rightarrow> string \<Rightarrow> int list" where
  "getLeasedPorts r poolName = map port (filter (\<lambda>l. pool l = poolName) (leases r))"

definition addLease ::
  "registry \<Rightarrow> int \<Rightarrow> string \<Rightarrow> string \<Rightarrow> string \<Rightarrow> string \<Rightarrow> int \<Rightarrow> lease \<times> registry" where
  "addLease r p poolName ident wt tg now =
     (let l = \<lparr>port = p, pool = poolName, identifier = ident, worktreePath = wt,
               tag = tg, leasedAt = Some now\<rparr>
      in (l, r\<lparr>leases := leases r @ [l]\<rparr>))"

definition removeLeasesByIdentifier :: "registry \<Rightarrow> string \<Rightarrow> nat \<times> registry" where
  "removeLeasesByIdentifier r ident =
     (let kept = filter (\<lambda>l. identifier l \<noteq> ident) (leases r)
      in (length (leases r) - length kept, r\<lparr>leases := kept\<rparr>))"

definition removeLeasesByTag :: "registry \<Rightarrow> string \<Rightarrow> string \<Rightarrow> nat \<times> registry" where
  "removeLeasesByTag r ident tg =
     (let kept = filter (\<lambda>l. \<not> (identifier l = ident \<and> tag l = tg)) (leases r)
      in (length (leases r) - length kept, r\<lparr>leases := kept\<rparr>))"

definition staleThresholdMs :: "int \<Rightarrow> int" where
  "staleThresholdMs staleThresholdDays = staleThresholdDays * 24 * 60 * 60 * 1000"

text \<open>
  The body of the loop of \<open>findStaleLeases\<close> for one lease: the worktree test first, the
  age test only when the first did not fire, the probe only for a lease past the threshold.
\<close>

definition staleness ::
  "(string \<Rightarrow> bool) \<Rightarrow> (int \<Rightarrow> bool) option \<Rightarrow> int \<Rightarrow> int \<Rightarrow> lease \<Rightarrow> stale_reason option" where
  "staleness pathExists isPortInUse staleThresholdDays now l =
     (if worktreePath l \<noteq> [] \<and> \<not> pathExists (worktreePath l) then Some WorktreeMissing
      else case leasedAt l of
        None \<Rightarrow> None
      | Some t \<Rightarrow>
          if now - t > staleThresholdMs staleThresholdDays then
            (case isPortInUse of
               None \<Rightarrow> None
             | Some probe \<Rightarrow>
                 if \<not> probe (port l) then Some (OlderThanDays staleThresholdDays) else None)
          else None)"

fun findStaleLoop ::
  "(string \<Rightarrow> bool) \<Rightarrow> (int \<Rightarrow> bool) option \<Rightarrow> int \<Rightarrow> int \<Rightarrow> lease list
     \<Rightarrow> (lease \<times> stale_reason) list" where
  "findStaleLoop pathExists isPortInUse days now [] = []"
| "findStaleLoop pathExists isPortInUse days now (l # ls) =
     (case staleness pathExists isPortInUse days now l of
        None \<Rightarrow> findStaleLoop pathExists isPortInUse days now ls
      | Some reason \<Rightarrow> (l, reason) # findStaleLoop pathExists isPortInUse days now ls)"

definition findStaleLeases ::
  "(string \<Rightarrow> bool) \<Rightarrow> int \<Rightarrow> registry \<Rightarrow> (int \<Rightarrow> bool) option \<Rightarrow> int
     \<Rightarrow> (lease \<times> stale_reason) list" where
  "findStaleLeases pathExists now r isPortInUse staleThresholdDays =
     findStaleLoop pathExists isPortInUse staleThresholdDays now (leases r)"

definition removeStaleLeases :: "registry \<Rightarrow> (lease \<times> stale_reason) list \<Rightarrow> nat \<times> registry" where
  "removeStaleLeases r staleLeases =
     (let stalePorts = map (\<lambda>item. port (fst item)) staleLeases;
          kept = filter (\<lambda>l. port l \<notin> set stalePorts) (leases r)
      in (length (leases r) - length kept, r\<lparr>leases := kept\<rparr>))"

definition addPool :: "registry \<Rightarrow> string \<Rightarrow> int \<Rightarrow> int \<Rightarrow> error + registry" where
  "addPool r name newStart newEnd =
     (if poolsGet r name \<noteq> Missing then Inl (PoolAlreadyExists name)
      else Inr (poolsSet r name \<lparr>rangeStart = newStart, rangeEnd = newEnd\<rparr>))"

definition updatePool :: "registry \<Rightarrow> string \<Rightarrow> int \<Rightarrow> int \<Rightarrow> error + registry" where
  "updatePool r name newStart newEnd =
     (if poolsGet r name = Missing then Inl (PoolDoesNotExist name)
      else Inr (poolsSet r name \<lparr>rangeStart = newStart, rangeEnd = newEnd\<rparr>))"

text \<open>\<open>delete registry.pools[name]\<close> removes an own key and does nothing for any other name.\<close>

definition deletePool :: "registry \<Rightarrow> string \<Rightarrow> error + (nat \<times> registry)" where
  "deletePool r name =
     (if poolsGet r name = Missing then Inl (PoolDoesNotExist name)
      else Inr (length (filter (\<lambda>l. pool l = name) (leases r)),
                r\<lparr>pools := (pools r)(name := None)\<rparr>))"

section \<open>lock.mjs\<close>

definition STALE_LOCK_AGE_MS :: int where
  "STALE_LOCK_AGE_MS = 60000"

text \<open>
  \<open>open(LOCK_PATH, O_CREAT | O_EXCL | O_WRONLY)\<close> and \<open>unlink(LOCK_PATH)\<close>. In this file
  system they fail only with \<open>EEXIST\<close> and \<open>ENOENT\<close>; the directory of the marker
  (\<open>ensurePortsDir\<close>) always exists.
\<close>

definition openExcl :: "fs \<Rightarrow> errno + fs" where
  "openExcl s = (case lockFile s of None \<Rightarrow> Inr (s\<lparr>lockFile := Some (clock s)\<rparr>) | Some _ \<Rightarrow> Inl EEXIST)"

definition unlink :: "fs \<Rightarrow> errno + fs" where
  "unlink s = (case lockFile s of None \<Rightarrow> Inl ENOENT | Some _ \<Rightarrow> Inr (s\<lparr>lockFile := None\<rparr>))"

text \<open>
  The loop of \<open>acquireLock\<close>. One process runs, so the marker changes only by this loop and
  the clock advances only by the 100 ms sleep.
\<close>

function acquireLoop :: "int \<Rightarrow> int \<Rightarrow> fs \<Rightarrow> (error + unit) \<times> fs" where
  "acquireLoop timeoutMs startTime s =
     (case openExcl s of
        Inr s' \<Rightarrow> (Inr (), s')
      | Inl ENOENT \<Rightarrow> (Inl (FsError ENOENT), s)
      | Inl EEXIST \<Rightarrow>
          (case lockFile s of
             None \<Rightarrow> acquireLoop timeoutMs startTime s
           | Some mtime \<Rightarrow>
               if clock s - mtime > STALE_LOCK_AGE_MS then
                 (case unlink s of
                    Inr s' \<Rightarrow> acquireLoop timeoutMs startTime s'
                  | Inl ENOENT \<Rightarrow>
                      if clock s - startTime > timeoutMs then (Inl (LockTimeout timeoutMs), s)
                      else acquireLoop timeoutMs startTime (s\<lparr>clock := clock s + 100\<rparr>)
                  | Inl e \<Rightarrow> (Inl (FsError e), s))
               else if clock s - startTime > timeoutMs then (Inl (LockTimeout timeoutMs), s)
               else acquireLoop timeoutMs startTime (s\<lparr>clock := clock s + 100\<rparr>)))"
  by pat_completeness auto

termination
  by (relation "measures [\<lambda>(timeoutMs, startTime, s). nat (timeoutMs - (clock s - startTime) + 1),
                          \<lambda>(timeoutMs, startTime, s). case lockFile s of None \<Rightarrow> 0 | Some _ \<Rightarrow> 1]")
     (auto simp: openExcl_def unlink_def split: option.splits)

declare acquireLoop.simps [simp del]

definition acquireLock :: "int \<Rightarrow> unit io" where
  "acquireLock timeoutMs s = acquireLoop timeoutMs (clock s) s"

definition releaseLock :: "unit io" where
  "releaseLock s =
     (case unlink s of
        Inr s' \<Rightarrow> (Inr (), s')
      | Inl ENOENT \<Rightarrow> (Inr (), s)
      | Inl e \<Rightarrow> (Inl (FsError e), s))"

text \<open>
  \<open>try { return await fn(); } finally { await releaseLock(); }\<close>: the release runs after
  either outcome of \<open>fn\<close>, and an error of the release replaces that outcome.
\<close>

definition withLock :: "'a io \<Rightarrow> int \<Rightarrow> 'a io" where
  "withLock fn timeoutMs s =
     (case acquireLock timeoutMs s of
        (Inl e, s1) \<Rightarrow> (Inl e, s1)
      | (Inr _, s1) \<Rightarrow>
          (case fn s1 of
             (outcome, s2) \<Rightarrow>
               (case releaseLock s2 of
                  (Inl e, s3) \<Rightarrow> (Inl e, s3)
                | (Inr _, s3) \<Rightarrow> (outcome, s3))))"

text \<open>
  \<open>withLock\<close> for a function that may run forever: the same steps; when \<open>fn\<close> does not
  return, neither does \<open>withLock\<close>, and the marker stays.
\<close>

definition withLockMay :: "'a may \<Rightarrow> int \<Rightarrow> 'a may" where
  "withLockMay fn timeoutMs s =
     (case acquireLock timeoutMs s of
        (Inl e, s1) \<Rightarrow> Some (Inl e, s1)
      | (Inr _, s1) \<Rightarrow>
          (case fn s1 of
             None \<Rightarrow> None
           | Some (outcome, s2) \<Rightarrow>
               (case releaseLock s2 of
                  (Inl e, s3) \<Rightarrow> Some (Inl e, s3)
                | (Inr _, s3) \<Rightarrow> Some (outcome, s3))))"

section \<open>core-api.mjs\<close>

text \<open>
  A string parameter that the source tests with \<open>!x\<close> is a \<open>string\<close> here, the empty string
  standing for every falsy value (\<open>null\<close>, \<open>undefined\<close>, \<open>''\<close>); a number tested with \<open>!x\<close>
  is falsy when it is \<open>0\<close>. \<open>gitToplevel\<close> is the trimmed output of the git command.
\<close>

definition getGitRoot :: "env \<Rightarrow> string option" where
  "getGitRoot e = gitToplevel e"

definition getAutoIdentifier :: "env \<Rightarrow> string option" where
  "getAutoIdentifier e =
     (case getGitRoot e of
        None \<Rightarrow> None
      | Some gitRoot \<Rightarrow>
          if gitRoot = [] then None
          else Some (filter (\<lambda>c. c \<noteq> CHR '':'')
                       (map (\<lambda>c. if c = CHR 0x5C then CHR ''/'' else c) gitRoot)))"

text \<open>
  \<open>port++\<close> on a number that holds an integer. Up to \<open>2^53\<close> the sum is exact. From there
  to \<open>2^54\<close> the numbers are the even integers and \<open>p + 1\<close> lies halfway between two of
  them: it is rounded to the one whose significand is even, so the counter stays or moves
  by 2. Beyond, \<open>p + 1\<close> is rounded back to \<open>p\<close>.
\<close>

definition jsInc :: "int \<Rightarrow> int" where
  "jsInc p =
     (if - (2 ^ 53) \<le> p \<and> p < 2 ^ 53 then p + 1
      else if \<bar>p\<bar> < 2 ^ 54 then (if even (\<bar>p\<bar> div 2) then p else p + 2)
      else p)"

text \<open>
  The \<open>for (let port = rangeStart; port <= rangeEnd; port++)\<close> loop of \<open>lease\<close>, with the
  value of \<open>foundPort\<close> after it: \<open>Some None\<close> for \<open>null\<close>. The loop runs forever, \<open>None\<close>,
  when the counter stops at a port that is taken.
\<close>

partial_function (option) scanPorts ::
  "(int \<Rightarrow> bool) \<Rightarrow> int list \<Rightarrow> int \<Rightarrow> int \<Rightarrow> int option option" where
  "scanPorts probe leasedPorts p lastPort =
     (if p \<le> lastPort then
        (if p \<notin> set leasedPorts \<and> \<not> probe p then Some (Some p)
         else scanPorts probe leasedPorts (jsInc p) lastPort)
      else Some None)"

text \<open>
  The function \<open>lease\<close> passes to \<open>withLock\<close>. \<open>foundPort\<close> starts as \<open>null\<close> and the test
  after the loop is \<open>!foundPort\<close>, which holds for \<open>null\<close> and for the number \<open>0\<close>. For a
  pool name that is only inherited, \<open>rangeStart\<close> and \<open>rangeEnd\<close> are \<open>undefined\<close>: the test
  \<open>port <= rangeEnd\<close> fails at once and the message has \<open>undefined\<close> for both bounds.
\<close>

definition leaseLocked ::
  "env \<Rightarrow> string \<Rightarrow> string \<Rightarrow> string \<Rightarrow> string \<Rightarrow> (int \<times> lease) may" where
  "leaseLocked e poolName tg ident wt s =
     (case getRegistry s of
        (r, s1) \<Rightarrow>
          (case validatePool r poolName of
             Inl err \<Rightarrow> Some (Inl err, s1)
           | Inr _ \<Rightarrow>
               (case getExistingLease r ident poolName tg of
                  Some existingLease \<Rightarrow> Some (Inr (port existingLease, existingLease), s1)
                | None \<Rightarrow>
                    (case poolsGet r poolName of
                       Missing \<Rightarrow> Some (Inl (UnknownPool poolName), s1)
                     | Inherited \<Rightarrow> Some (Inl (PoolExhaustedUndefined poolName), s1)
                     | Own cfg \<Rightarrow>
                         (case scanPorts (portChecker e) (getLeasedPorts r poolName)
                                 (rangeStart cfg) (rangeEnd cfg) of
                            None \<Rightarrow> None
                          | Some foundPort \<Rightarrow>
                              if foundPort = None \<or> foundPort = Some 0 then
                                Some (Inl (PoolExhausted poolName (rangeStart cfg) (rangeEnd cfg)), s1)
                              else
                                (case addLease r (the foundPort) poolName ident wt tg (clock s1) of
                                   (l, r') \<Rightarrow>
                                     Some (Inr (the foundPort, l), saveRegistry r' s1)))))))"

definition lease :: "env \<Rightarrow> string \<Rightarrow> string \<Rightarrow> string \<Rightarrow> string \<Rightarrow> (int \<times> lease) may" where
  "lease e poolName tagArg identArg wtArg s =
     (if poolName = [] then Some (Inl PoolRequired, s)
      else
        (case (if identArg = [] then getAutoIdentifier e else Some identArg) of
           None \<Rightarrow> Some (Inl NoGitRepository, s)
         | Some ident \<Rightarrow>
             if ident = [] then Some (Inl NoGitRepository, s)
             else
               (let wt = (if wtArg = [] then (case getGitRoot e of None \<Rightarrow> [] | Some g \<Rightarrow> g)
                          else wtArg)
                in withLockMay (leaseLocked e poolName tagArg ident wt) 30000 s)))"

text \<open>
  \<open>release(tag = undefined, identifier = null)\<close>: the tag is \<open>None\<close> when the caller leaves
  it out and \<open>Some t\<close> when a string is passed, the empty string included.
\<close>

definition releaseLocked :: "string option \<Rightarrow> string \<Rightarrow> (nat \<times> lease list) io" where
  "releaseLocked tagArg ident s =
     (case getRegistry s of
        (r, s1) \<Rightarrow>
          (case (case tagArg of
                   Some tg \<Rightarrow> removeLeasesByTag r ident tg
                 | None \<Rightarrow> removeLeasesByIdentifier r ident) of
             (removedCount, r') \<Rightarrow>
               if removedCount = 0 then
                 (case tagArg of
                    Some tg \<Rightarrow> (Inl (NoLeaseWithTag tg), s1)
                  | None \<Rightarrow> (Inl NoLeasesForProject, s1))
               else (Inr (removedCount, leases r'), saveRegistry r' s1)))"

definition release :: "env \<Rightarrow> string option \<Rightarrow> string \<Rightarrow> (nat \<times> lease list) io" where
  "release e tagArg identArg s =
     (case (if identArg = [] then getAutoIdentifier e else Some identArg) of
        None \<Rightarrow> (Inl NoGitRepository, s)
      | Some ident \<Rightarrow>
          if ident = [] then (Inl NoGitRepository, s)
          else withLock (releaseLocked tagArg ident) 30000 s)"

text \<open>
  \<open>cleanup\<close> returns \<open>{staleLeases, removedCount, dryRun}\<close>; the live run leaves \<open>dryRun\<close>
  out of the object it returns.
\<close>

definition cleanupLocked ::
  "env \<Rightarrow> bool \<Rightarrow> ((lease \<times> stale_reason) list \<times> nat \<times> bool option) io" where
  "cleanupLocked e isDryRun s =
     (case getRegistry s of
        (r, s1) \<Rightarrow>
          (let staleLeases = findStaleLeases (existsSync e) (clock s1) r (Some (portChecker e)) 7
           in if length staleLeases = 0 then (Inr ([], 0, Some isDryRun), s1)
              else if isDryRun then (Inr (staleLeases, 0, Some True), s1)
              else
                (case removeStaleLeases r staleLeases of
                   (removedCount, r') \<Rightarrow>
                     (Inr (staleLeases, removedCount, None), saveRegistry r' s1))))"

definition cleanup ::
  "env \<Rightarrow> bool \<Rightarrow> ((lease \<times> stale_reason) list \<times> nat \<times> bool option) io" where
  "cleanup e isDryRun s = withLock (cleanupLocked e isDryRun) 30000 s"

definition poolAddLocked :: "string \<Rightarrow> int \<Rightarrow> int \<Rightarrow> (string \<times> int \<times> int) io" where
  "poolAddLocked poolName newStart newEnd s =
     (case getRegistry s of
        (r, s1) \<Rightarrow>
          (case addPool r poolName newStart newEnd of
             Inl err \<Rightarrow> (Inl err, s1)
           | Inr r' \<Rightarrow> (Inr (poolName, newStart, newEnd), saveRegistry r' s1)))"

definition poolAdd :: "string \<Rightarrow> int \<Rightarrow> int \<Rightarrow> (string \<times> int \<times> int) io" where
  "poolAdd poolName newStart newEnd s =
     (if poolName = [] \<or> newStart = 0 \<or> newEnd = 0 then (Inl PoolArgsRequired, s)
      else if newStart \<ge> newEnd then (Inl RangeStartNotLess, s)
      else withLock (poolAddLocked poolName newStart newEnd) 30000 s)"

definition poolUpdateLocked :: "string \<Rightarrow> int \<Rightarrow> int \<Rightarrow> (string \<times> int \<times> int) io" where
  "poolUpdateLocked poolName newStart newEnd s =
     (case getRegistry s of
        (r, s1) \<Rightarrow>
          (let affectedLeases =
                 filter (\<lambda>l. (pool l = poolName \<or> pool l = poolName @ ''-https'') \<and>
                              (port l < newStart \<or> port l > newEnd)) (leases r)
           in if length affectedLeases > 0 then (Inl (LeasesOutsideRange (length affectedLeases)), s1)
              else
                (case updatePool r poolName newStart newEnd of
                   Inl err \<Rightarrow> (Inl err, s1)
                 | Inr r' \<Rightarrow> (Inr (poolName, newStart, newEnd), saveRegistry r' s1))))"

definition poolUpdate :: "string \<Rightarrow> int \<Rightarrow> int \<Rightarrow> (string \<times> int \<times> int) io" where
  "poolUpdate poolName newStart newEnd s =
     (if poolName = [] \<or> newStart = 0 \<or> newEnd = 0 then (Inl PoolArgsRequired, s)
      else if newStart \<ge> newEnd then (Inl RangeStartNotLess, s)
      else withLock (poolUpdateLocked poolName newStart newEnd) 30000 s)"

definition poolDeleteLocked :: "string \<Rightarrow> string io" where
  "poolDeleteLocked poolName s =
     (case getRegistry s of
        (r, s1) \<Rightarrow>
          (case deletePool r poolName of
             Inl err \<Rightarrow> (Inl err, s1)
           | Inr (leaseCount, r') \<Rightarrow>
               if leaseCount > 0 then (Inl (PoolHasLeases poolName leaseCount), s1)
               else (Inr poolName, saveRegistry r' s1)))"

definition poolDelete :: "string \<Rightarrow> string io" where
  "poolDelete poolName s =
     (if poolName = [] then (Inl PoolNameRequired, s)
      else withLock (poolDeleteLocked poolName) 30000 s)"

section \<open>Example states\<close>

text \<open>The probes of the tests (\<open>createMockPortChecker\<close>) and small registries.\<close>

abbreviation (input) quietEnv :: env where
  "quietEnv \<equiv> \<lparr>portChecker = (\<lambda>p. False), existsSync = (\<lambda>path. True), gitToplevel = None\<rparr>"

abbreviation (input) busyEnv :: env where
  "busyEnv \<equiv> \<lparr>portChecker = (\<lambda>p. True), existsSync = (\<lambda>path. True), gitToplevel = None\<rparr>"

abbreviation (input) projLease :: lease where
  "projLease \<equiv> \<lparr>port = 3300, pool = ''frontend'', identifier = ''proj'', worktreePath = ''/w'',
                 tag = [], leasedAt = Some 0\<rparr>"

abbreviation (input) oneLeaseFs :: fs where
  "oneLeaseFs \<equiv> \<lparr>registryFile = Some (getDefaultRegistry\<lparr>leases := [projLease]\<rparr>),
                  lockFile = None, clock = 5\<rparr>"

abbreviation (input) tinyLeaseA :: lease where
  "tinyLeaseA \<equiv> \<lparr>port = 1, pool = ''tiny'', identifier = ''proj'', worktreePath = ''/w'',
                  tag = ''a'', leasedAt = Some 0\<rparr>"

abbreviation (input) tinyLeaseB :: lease where
  "tinyLeaseB \<equiv> \<lparr>port = 2, pool = ''tiny'', identifier = ''proj'', worktreePath = ''/w'',
                  tag = ''b'', leasedAt = Some 0\<rparr>"

abbreviation (input) tinyRegistry :: registry where
  "tinyRegistry \<equiv> \<lparr>version = ''1.0'', pools = [''tiny'' \<mapsto> \<lparr>rangeStart = 1, rangeEnd = 2\<rparr>],
                    leases = [tinyLeaseA, tinyLeaseB], lastModified = None\<rparr>"

abbreviation (input) tinyFs :: fs where
  "tinyFs \<equiv> \<lparr>registryFile = Some tinyRegistry, lockFile = None, clock = 5\<rparr>"

abbreviation (input) untaggedLease :: lease where
  "untaggedLease \<equiv> \<lparr>port = 5300, pool = ''backend'', identifier = ''proj'', worktreePath = ''/w'',
                     tag = [], leasedAt = Some 0\<rparr>"

abbreviation (input) apiLease :: lease where
  "apiLease \<equiv> \<lparr>port = 5301, pool = ''backend'', identifier = ''proj'', worktreePath = ''/w'',
                tag = ''api'', leasedAt = Some 0\<rparr>"

abbreviation (input) otherLease :: lease where
  "otherLease \<equiv> \<lparr>port = 5302, pool = ''backend'', identifier = ''other'', worktreePath = ''/o'',
                  tag = [], leasedAt = Some 0\<rparr>"

abbreviation (input) threeLeaseFs :: fs where
  "threeLeaseFs \<equiv>
     \<lparr>registryFile = Some (getDefaultRegistry\<lparr>leases := [untaggedLease, apiLease, otherLease]\<rparr>),
      lockFile = None, clock = 5\<rparr>"

abbreviation (input) httpsPoolLease :: lease where
  "httpsPoolLease \<equiv> \<lparr>port = 5400, pool = ''backend-https'', identifier = ''proj'',
                      worktreePath = ''/w'', tag = [], leasedAt = Some 0\<rparr>"

abbreviation (input) httpsFs :: fs where
  "httpsFs \<equiv>
     \<lparr>registryFile = Some (getDefaultRegistry\<lparr>leases := [untaggedLease, httpsPoolLease]\<rparr>),
      lockFile = None, clock = 5\<rparr>"

abbreviation (input) zeroPoolRegistry :: registry where
  "zeroPoolRegistry \<equiv> \<lparr>version = ''1.0'', pools = [''z'' \<mapsto> \<lparr>rangeStart = 0, rangeEnd = 10\<rparr>],
                        leases = [], lastModified = None\<rparr>"

abbreviation (input) zeroPoolFs :: fs where
  "zeroPoolFs \<equiv> \<lparr>registryFile = Some zeroPoolRegistry, lockFile = None, clock = 5\<rparr>"

abbreviation (input) heldLockFs :: fs where
  "heldLockFs \<equiv> \<lparr>registryFile = Some getDefaultRegistry, lockFile = Some 0, clock = 70000\<rparr>"

abbreviation (input) goneLease :: lease where
  "goneLease \<equiv> \<lparr>port = 3300, pool = ''frontend'', identifier = ''proj'', worktreePath = ''/gone'',
                 tag = [], leasedAt = Some 0\<rparr>"

abbreviation (input) goneEnv :: env where
  "goneEnv \<equiv> \<lparr>portChecker = (\<lambda>p. True), existsSync = (\<lambda>path. path \<noteq> ''/gone''), gitToplevel = None\<rparr>"

abbreviation (input) twinLease :: lease where
  "twinLease \<equiv> \<lparr>port = 3300, pool = ''frontend'', identifier = ''twin'', worktreePath = [],
                 tag = [], leasedAt = Some 0\<rparr>"

abbreviation (input) twinFs :: fs where
  "twinFs \<equiv> \<lparr>registryFile = Some (getDefaultRegistry\<lparr>leases := [goneLease, twinLease, otherLease]\<rparr>),
              lockFile = None, clock = 5\<rparr>"

abbreviation (input) freshFs :: fs where
  "freshFs \<equiv> \<lparr>registryFile = Some getDefaultRegistry, lockFile = None, clock = 5\<rparr>"

abbreviation (input) negPools :: "string \<rightharpoonup> pool_range" where
  "negPools \<equiv> (pools getDefaultRegistry)(''neg'' \<mapsto> \<lparr>rangeStart = - 1, rangeEnd = 1\<rparr>)"

abbreviation (input) negLease :: lease where
  "negLease \<equiv> \<lparr>port = - 1, pool = ''neg'', identifier = ''proj'', worktreePath = ''/w'',
                tag = ''a'', leasedAt = Some 5\<rparr>"

abbreviation (input) negFs :: fs where
  "negFs \<equiv> \<lparr>registryFile = Some (getDefaultRegistry\<lparr>pools := negPools, lastModified := Some 5\<rparr>),
             lockFile = None, clock = 5\<rparr>"

abbreviation (input) negLeasedFs :: fs where
  "negLeasedFs \<equiv>
     \<lparr>registryFile = Some (getDefaultRegistry\<lparr>pools := negPools, leases := [negLease],
                                              lastModified := Some 5\<rparr>),
      lockFile = None, clock = 5\<rparr>"

abbreviation (input) orphanLease :: lease where
  "orphanLease \<equiv> \<lparr>port = 4000, pool = ''ghost'', identifier = ''proj'', worktreePath = ''/w'',
                   tag = [], leasedAt = Some 0\<rparr>"

abbreviation (input) orphanFs :: fs where
  "orphanFs \<equiv> \<lparr>registryFile = Some (getDefaultRegistry\<lparr>leases := [orphanLease]\<rparr>),
                lockFile = None, clock = 5\<rparr>"

abbreviation (input) doubleLease :: lease where
  "doubleLease \<equiv> \<lparr>port = 3301, pool = ''frontend'', identifier = ''proj'', worktreePath = ''/w'',
                   tag = [], leasedAt = Some 0\<rparr>"

abbreviation (input) doubleFs :: fs where
  "doubleFs \<equiv> \<lparr>registryFile = Some (getDefaultRegistry\<lparr>leases := [projLease, doubleLease]\<rparr>),
                lockFile = None, clock = 5\<rparr>"

abbreviation (input) freshLease :: lease where
  "freshLease \<equiv> \<lparr>port = 3300, pool = ''frontend'', identifier = ''proj'', worktreePath = ''/w'',
                  tag = [], leasedAt = Some 5\<rparr>"

abbreviation (input) leasedFs :: fs where
  "leasedFs \<equiv> \<lparr>registryFile = Some (getDefaultRegistry\<lparr>leases := [freshLease], lastModified := Some 5\<rparr>),
                lockFile = None, clock = 5\<rparr>"

section \<open>The lock\<close>

lemma acquireLoop_registryFile:
  "registryFile (snd (acquireLoop timeoutMs startTime s)) = registryFile s"
proof (induction timeoutMs startTime s rule: acquireLoop.induct)
  case (1 timeoutMs startTime s)
  show ?case
    apply (subst acquireLoop.simps)
    using 1 apply (auto simp: openExcl_def unlink_def split: option.splits sum.splits errno.splits)
    done
qed

lemma acquireLoop_locked:
  "fst (acquireLoop timeoutMs startTime s) = Inr () \<Longrightarrow>
   lockFile (snd (acquireLoop timeoutMs startTime s)) \<noteq> None"
proof (induction timeoutMs startTime s rule: acquireLoop.induct)
  case (1 timeoutMs startTime s)
  show ?case
    using 1(5) apply (subst acquireLoop.simps) apply (subst (asm) acquireLoop.simps)
    using 1(1-4) apply (auto simp: openExcl_def unlink_def split: option.splits sum.splits errno.splits if_splits)
    done
qed

lemma acquireLock_free:
  "lockFile s = None \<Longrightarrow> acquireLock timeoutMs s = (Inr (), s\<lparr>lockFile := Some (clock s)\<rparr>)"
  by (simp add: acquireLock_def acquireLoop.simps openExcl_def)

lemma acquireLock_registryFile:
  "acquireLock timeoutMs s = (out, s1) \<Longrightarrow> registryFile s1 = registryFile s"
  using acquireLoop_registryFile [of timeoutMs "clock s" s] by (simp add: acquireLock_def)

lemma releaseLock_eq: "releaseLock s = (Inr (), s\<lparr>lockFile := None\<rparr>)"
  by (cases "lockFile s") (simp_all add: releaseLock_def unlink_def)

lemma unlock_free: "lockFile s = None \<Longrightarrow> s\<lparr>lockFile := Some c\<rparr>\<lparr>lockFile := None\<rparr> = s"
  by simp

lemma withLock_acquired:
  "acquireLock timeoutMs s = (Inr u, s1) \<Longrightarrow>
   withLock fn timeoutMs s = (fst (fn s1), (snd (fn s1))\<lparr>lockFile := None\<rparr>)"
  by (simp add: withLock_def releaseLock_eq split: prod.splits)

lemma withLock_not_acquired:
  "acquireLock timeoutMs s = (Inl err, s1) \<Longrightarrow> withLock fn timeoutMs s = (Inl err, s1)"
  by (simp add: withLock_def)

lemma withLockMay_acquired:
  "acquireLock timeoutMs s = (Inr u, s1) \<Longrightarrow>
   withLockMay fn timeoutMs s =
     map_option (\<lambda>(outcome, s2). (outcome, s2\<lparr>lockFile := None\<rparr>)) (fn s1)"
  by (simp add: withLockMay_def releaseLock_eq split: option.splits prod.splits)

lemma withLockMay_returns:
  "withLockMay (\<lambda>s. Some (fn s)) timeoutMs s = Some (withLock fn timeoutMs s)"
  by (simp add: withLockMay_def withLock_def split: prod.splits sum.splits)

lemma withLock_cases [consumes 0, case_names timeout acquired]:
  obtains (timeout) err s1 where "acquireLock t s = (Inl err, s1)"
      and "withLock fn t s = (Inl err, s1)" and "registryFile s1 = registryFile s"
  | (acquired) s1 where "acquireLock t s = (Inr (), s1)" and "registryFile s1 = registryFile s"
      and "withLock fn t s = (fst (fn s1), (snd (fn s1))\<lparr>lockFile := None\<rparr>)"
proof (cases "acquireLock t s")
  case (Pair out s1)
  show ?thesis
  proof (cases out)
    case (Inl err)
    with Pair timeout [of err s1] withLock_not_acquired [of t s err s1 fn]
      acquireLock_registryFile [of t s out s1]
    show ?thesis by simp
  next
    case (Inr u)
    with Pair acquired [of s1] withLock_acquired [of t s u s1 fn]
      acquireLock_registryFile [of t s out s1]
    show ?thesis by simp
  qed
qed

text \<open>
  Claim C8 (the lock is released on every way out of \<open>withLock\<close>). Whatever \<open>fn\<close> is and
  whatever it returns, a value or an error: once \<open>acquireLock\<close> has succeeded, leaving the
  marker in place for \<open>fn\<close>, \<open>withLock\<close> returns the outcome of \<open>fn\<close> and the file system
  \<open>fn\<close> left with the marker removed. \<open>releaseLock\<close> itself never fails in this file system;
  on a marker that is already absent it succeeds and changes nothing.
\<close>

theorem withLock_releases:
  "(acquireLock timeoutMs s = (Inr (), s1) \<longrightarrow>
      lockFile s1 \<noteq> None \<and>
      fst (withLock fn timeoutMs s) = fst (fn s1) \<and>
      snd (withLock fn timeoutMs s) = (snd (fn s1))\<lparr>lockFile := None\<rparr> \<and>
      lockFile (snd (withLock fn timeoutMs s)) = None) \<and>
   fst (releaseLock s') = Inr () \<and> lockFile (snd (releaseLock s')) = None \<and>
   (lockFile s' = None \<longrightarrow> releaseLock s' = (Inr (), s'))"
proof (intro conjI impI)
  assume acq: "acquireLock timeoutMs s = (Inr (), s1)"
  then show "lockFile s1 \<noteq> None"
    using acquireLoop_locked [of timeoutMs "clock s" s] by (simp add: acquireLock_def)
  from withLock_acquired [OF acq, of fn]
  show "fst (withLock fn timeoutMs s) = fst (fn s1)"
    and "snd (withLock fn timeoutMs s) = (snd (fn s1))\<lparr>lockFile := None\<rparr>"
    and "lockFile (snd (withLock fn timeoutMs s)) = None"
    by simp_all
next
  show "fst (releaseLock s') = Inr ()" by (simp add: releaseLock_eq)
  show "lockFile (snd (releaseLock s')) = None" by (simp add: releaseLock_eq)
next
  assume "lockFile s' = None"
  then show "releaseLock s' = (Inr (), s')" by (simp add: releaseLock_eq)
qed

text \<open>
  At \<open>heldLockFs\<close> a marker 70 seconds old is in the way: \<open>acquireLock\<close> removes it as stale
  and takes the lock. The three functions run under the lock fail, return, and return
  after removing the marker themselves.
\<close>

theorem withLock_releases_witness:
  "acquireLock 30000 heldLockFs = (Inr (), heldLockFs\<lparr>lockFile := Some 70000\<rparr>) \<and>
   withLock (\<lambda>s. (Inl NoLeasesForProject :: error + nat, s)) 30000 heldLockFs =
     (Inl NoLeasesForProject, heldLockFs\<lparr>lockFile := None\<rparr>) \<and>
   withLock (\<lambda>s. (Inr (7::nat), s\<lparr>clock := 70001\<rparr>)) 30000 heldLockFs =
     (Inr 7, heldLockFs\<lparr>lockFile := None, clock := 70001\<rparr>) \<and>
   withLock (\<lambda>s. (Inr (7::nat), s\<lparr>lockFile := None\<rparr>)) 30000 heldLockFs =
     (Inr 7, heldLockFs\<lparr>lockFile := None\<rparr>) \<and>
   releaseLock oneLeaseFs = (Inr (), oneLeaseFs)"
proof -
  have acq: "acquireLock 30000 heldLockFs = (Inr (), heldLockFs\<lparr>lockFile := Some 70000\<rparr>)"
    by (simp add: acquireLock_def acquireLoop.simps openExcl_def unlink_def STALE_LOCK_AGE_MS_def)
  have a: "withLock (\<lambda>s. (Inl NoLeasesForProject :: error + nat, s)) 30000 heldLockFs =
     (Inl NoLeasesForProject, heldLockFs\<lparr>lockFile := None\<rparr>)"
    using withLock_releases [of 30000 heldLockFs "heldLockFs\<lparr>lockFile := Some 70000\<rparr>"
        "\<lambda>s. (Inl NoLeasesForProject :: error + nat, s)" oneLeaseFs] acq
    by (simp add: prod_eq_iff)
  have b: "withLock (\<lambda>s. (Inr (7::nat), s\<lparr>clock := 70001\<rparr>)) 30000 heldLockFs =
     (Inr 7, heldLockFs\<lparr>lockFile := None, clock := 70001\<rparr>)"
    using withLock_releases [of 30000 heldLockFs "heldLockFs\<lparr>lockFile := Some 70000\<rparr>"
        "\<lambda>s. (Inr (7::nat), s\<lparr>clock := 70001\<rparr>)" oneLeaseFs] acq
    by (simp add: prod_eq_iff)
  have c: "withLock (\<lambda>s. (Inr (7::nat), s\<lparr>lockFile := None\<rparr>)) 30000 heldLockFs =
     (Inr 7, heldLockFs\<lparr>lockFile := None\<rparr>)"
    using withLock_releases [of 30000 heldLockFs "heldLockFs\<lparr>lockFile := Some 70000\<rparr>"
        "\<lambda>s. (Inr (7::nat), s\<lparr>lockFile := None\<rparr>)" oneLeaseFs] acq
    by (simp add: prod_eq_iff)
  have d: "releaseLock oneLeaseFs = (Inr (), oneLeaseFs)"
    using withLock_releases [of 30000 heldLockFs "heldLockFs\<lparr>lockFile := Some 70000\<rparr>"
        "\<lambda>s. (Inr (7::nat), s)" oneLeaseFs]
    by simp
  from acq a b c d show ?thesis by blast
qed

section \<open>The port scan\<close>

text \<open>
  Inside the range where \<open>port++\<close> is exact the scan returns: \<open>null\<close> when every port from
  \<open>p\<close> to \<open>lastPort\<close> is leased or in use, the lowest port that is neither otherwise.
\<close>

lemma jsInc_safe: "- (2 ^ 53) \<le> p \<Longrightarrow> p < 2 ^ 53 \<Longrightarrow> jsInc p = p + 1"
  by (simp add: jsInc_def)

lemma scanPorts_safe:
  assumes "- (2 ^ 53) \<le> p" and "lastPort < 2 ^ 53"
  shows "\<exists>found. scanPorts probe leasedPorts p lastPort = Some found \<and>
     (case found of
        None \<Rightarrow> (\<forall>x. p \<le> x \<and> x \<le> lastPort \<longrightarrow> x \<in> set leasedPorts \<or> probe x)
      | Some q \<Rightarrow> p \<le> q \<and> q \<le> lastPort \<and> q \<notin> set leasedPorts \<and> \<not> probe q \<and>
                  (\<forall>x. p \<le> x \<and> x < q \<longrightarrow> x \<in> set leasedPorts \<or> probe x))"
  using assms
proof (induction "nat (lastPort + 1 - p)" arbitrary: p)
  case 0
  then have gt: "\<not> p \<le> lastPort" by simp
  have "scanPorts probe leasedPorts p lastPort = Some None"
    using gt by (subst scanPorts.simps) simp
  moreover have "\<forall>x. p \<le> x \<and> x \<le> lastPort \<longrightarrow> x \<in> set leasedPorts \<or> probe x"
    using gt by auto
  ultimately show ?case by simp
next
  case (Suc n)
  from Suc.hyps(2) have le: "p \<le> lastPort" by simp
  show ?case
  proof (cases "p \<notin> set leasedPorts \<and> \<not> probe p")
    case True
    then have "scanPorts probe leasedPorts p lastPort = Some (Some p)"
      using le by (subst scanPorts.simps) simp
    moreover have "\<forall>x. p \<le> x \<and> x < p \<longrightarrow> x \<in> set leasedPorts \<or> probe x" by auto
    ultimately show ?thesis using True le by simp
  next
    case False
    have "p < 2 ^ 53" using le Suc.prems(2) by (rule le_less_trans)
    then have inc: "jsInc p = p + 1" using Suc.prems(1) by (intro jsInc_safe)
    have eq: "scanPorts probe leasedPorts p lastPort = scanPorts probe leasedPorts (p + 1) lastPort"
      using le False inc by (subst scanPorts.simps) auto
    have n: "n = nat (lastPort + 1 - (p + 1))" using Suc.hyps(2) by linarith
    have lo: "- (2 ^ 53) \<le> p + 1" using Suc.prems(1) by (rule order_trans) simp
    from Suc.hyps(1) [OF n lo Suc.prems(2)]
    obtain found where found: "scanPorts probe leasedPorts (p + 1) lastPort = Some found"
      and spec: "case found of
        None \<Rightarrow> (\<forall>x. p + 1 \<le> x \<and> x \<le> lastPort \<longrightarrow> x \<in> set leasedPorts \<or> probe x)
      | Some q \<Rightarrow> p + 1 \<le> q \<and> q \<le> lastPort \<and> q \<notin> set leasedPorts \<and> \<not> probe q \<and>
                  (\<forall>x. p + 1 \<le> x \<and> x < q \<longrightarrow> x \<in> set leasedPorts \<or> probe x)"
      by blast
    have ext: "\<And>x. p \<le> x \<Longrightarrow> (p + 1 \<le> x \<Longrightarrow> x \<in> set leasedPorts \<or> probe x) \<Longrightarrow>
                 x \<in> set leasedPorts \<or> probe x"
    proof -
      fix x assume a: "p \<le> x" and b: "p + 1 \<le> x \<Longrightarrow> x \<in> set leasedPorts \<or> probe x"
      show "x \<in> set leasedPorts \<or> probe x"
      proof (cases "x = p")
        case True with False show ?thesis by simp
      next
        case False with a have "p + 1 \<le> x" by linarith
        then show ?thesis by (rule b)
      qed
    qed
    show ?thesis
    proof (cases found)
      case None
      with spec have all: "\<forall>x. p + 1 \<le> x \<and> x \<le> lastPort \<longrightarrow> x \<in> set leasedPorts \<or> probe x"
        by simp
      have "\<forall>x. p \<le> x \<and> x \<le> lastPort \<longrightarrow> x \<in> set leasedPorts \<or> probe x"
        using all ext by blast
      with eq found None show ?thesis by simp
    next
      case (Some q)
      with spec have q: "p + 1 \<le> q" "q \<le> lastPort" "q \<notin> set leasedPorts" "\<not> probe q"
        and below: "\<forall>x. p + 1 \<le> x \<and> x < q \<longrightarrow> x \<in> set leasedPorts \<or> probe x"
        by simp_all
      have "\<forall>x. p \<le> x \<and> x < q \<longrightarrow> x \<in> set leasedPorts \<or> probe x"
        using below ext by blast
      moreover have "p \<le> q" using q(1) by linarith
      ultimately show ?thesis using eq found Some q by simp
    qed
  qed
qed

lemma scanPorts_Some:
  assumes "- (2 ^ 53) \<le> p" and "lastPort < 2 ^ 53"
    and "scanPorts probe leasedPorts p lastPort = Some (Some q)"
  shows "p \<le> q \<and> q \<le> lastPort \<and> q \<notin> set leasedPorts \<and> \<not> probe q \<and>
   (\<forall>x. p \<le> x \<and> x < q \<longrightarrow> x \<in> set leasedPorts \<or> probe x)"
  using scanPorts_safe [OF assms(1,2), of probe leasedPorts] assms(3) by auto

lemma scanPorts_None:
  assumes "- (2 ^ 53) \<le> p" and "lastPort < 2 ^ 53"
  shows "scanPorts probe leasedPorts p lastPort = Some None \<longleftrightarrow>
   (\<forall>x. p \<le> x \<and> x \<le> lastPort \<longrightarrow> x \<in> set leasedPorts \<or> probe x)"
proof -
  obtain found where found: "scanPorts probe leasedPorts p lastPort = Some found"
    and spec: "case found of
        None \<Rightarrow> (\<forall>x. p \<le> x \<and> x \<le> lastPort \<longrightarrow> x \<in> set leasedPorts \<or> probe x)
      | Some q \<Rightarrow> p \<le> q \<and> q \<le> lastPort \<and> q \<notin> set leasedPorts \<and> \<not> probe q \<and>
                  (\<forall>x. p \<le> x \<and> x < q \<longrightarrow> x \<in> set leasedPorts \<or> probe x)"
    using scanPorts_safe [OF assms, of probe leasedPorts] by blast
  show ?thesis
  proof (cases found)
    case None
    with found spec show ?thesis by simp
  next
    case (Some q)
    with found spec show ?thesis by auto
  qed
qed

lemma scanPorts_returns:
  assumes "- (2 ^ 53) \<le> p" and "lastPort < 2 ^ 53"
  shows "scanPorts probe leasedPorts p lastPort \<noteq> None"
  using scanPorts_safe [OF assms, of probe leasedPorts] by auto

lemma scanPorts_first:
  assumes "- (2 ^ 53) \<le> p" and "lastPort < 2 ^ 53"
    and "p \<le> q" and "q \<le> lastPort" and "q \<notin> set leasedPorts" and "\<not> probe q"
    and "\<forall>x. p \<le> x \<and> x < q \<longrightarrow> x \<in> set leasedPorts \<or> probe x"
  shows "scanPorts probe leasedPorts p lastPort = Some (Some q)"
proof -
  obtain found where found: "scanPorts probe leasedPorts p lastPort = Some found"
    using scanPorts_safe [OF assms(1,2), of probe leasedPorts] by blast
  show ?thesis
  proof (cases found)
    case None
    with found scanPorts_None [OF assms(1,2), of probe leasedPorts] assms(3-6)
    show ?thesis by auto
  next
    case (Some q')
    have sq: "scanPorts probe leasedPorts p lastPort = Some (Some q')" using found Some by simp
    from scanPorts_Some [OF assms(1,2) sq] assms(3-7)
    have "\<not> q' < q" "\<not> q < q'" by auto
    then have "q' = q" by simp
    with found Some show ?thesis by simp
  qed
qed

text \<open>
  At \<open>2^53\<close> the counter stops: when that port is taken and the range goes on, the loop
  never ends.
\<close>

lemma scanPorts_stuck_aux:
  assumes "scanPorts probe leasedPorts p lastPort = Some found"
  shows "jsInc p = p \<longrightarrow> p \<le> lastPort \<longrightarrow> (p \<in> set leasedPorts \<or> probe p) \<longrightarrow> False"
proof (rule scanPorts.raw_induct
    [where P = "\<lambda>pr lp c l y. jsInc c = c \<longrightarrow> c \<le> l \<longrightarrow> (c \<in> set lp \<or> pr c) \<longrightarrow> False",
     OF _ assms])
  fix f :: "(int \<Rightarrow> bool) \<Rightarrow> int list \<Rightarrow> int \<Rightarrow> int \<Rightarrow> int option option"
    and pr lp c l y
  assume IH: "\<And>pr lp c l y. f pr lp c l = Some y \<Longrightarrow>
      jsInc c = c \<longrightarrow> c \<le> l \<longrightarrow> (c \<in> set lp \<or> pr c) \<longrightarrow> False"
    and body: "(if c \<le> l then (if c \<notin> set lp \<and> \<not> pr c then Some (Some c) else f pr lp (jsInc c) l)
                else Some None) = Some y"
  show "jsInc c = c \<longrightarrow> c \<le> l \<longrightarrow> (c \<in> set lp \<or> pr c) \<longrightarrow> False"
  proof (intro impI)
    assume a: "jsInc c = c" "c \<le> l" "c \<in> set lp \<or> pr c"
    with body have "f pr lp c l = Some y" by (auto split: if_splits)
    from IH [OF this] a show False by blast
  qed
qed

lemma scanPorts_stuck:
  assumes "jsInc p = p" and "p \<le> lastPort" and "p \<in> set leasedPorts \<or> probe p"
  shows "scanPorts probe leasedPorts p lastPort = None"
proof (cases "scanPorts probe leasedPorts p lastPort")
  case None
  then show ?thesis .
next
  case (Some found)
  from scanPorts_stuck_aux [OF Some] assms show ?thesis by blast
qed

lemma scanPorts_at_2_53:
  "2 ^ 53 \<le> lastPort \<Longrightarrow> probe (2 ^ 53) \<Longrightarrow> scanPorts probe leasedPorts (2 ^ 53) lastPort = None"
  by (rule scanPorts_stuck) (simp_all add: jsInc_def)

lemma getLeasedPorts_mem:
  "x \<in> set (getLeasedPorts r poolName) \<longleftrightarrow> (\<exists>l \<in> set (leases r). pool l = poolName \<and> port l = x)"
  by (auto simp: getLeasedPorts_def)

section \<open>Leasing\<close>

lemma getExistingLease_Some:
  "getExistingLease r ident poolName tg = Some l \<Longrightarrow>
   l \<in> set (leases r) \<and> identifier l = ident \<and> pool l = poolName \<and> tag l = tg"
  by (auto simp: getExistingLease_def find_Some_iff)

lemma getExistingLease_None:
  "getExistingLease r ident poolName tg = None \<longleftrightarrow>
   (\<forall>l \<in> set (leases r). \<not> (identifier l = ident \<and> pool l = poolName \<and> tag l = tg))"
  by (auto simp: getExistingLease_def find_None_iff)

lemma find_append_last:
  "find P xs = None \<Longrightarrow> P x \<Longrightarrow> find P (xs @ [x]) = Some x"
  by (induction xs) (auto split: if_splits)

lemma poolsGet_own: "pools r name = Some cfg \<Longrightarrow> poolsGet r name = Own cfg"
  by (simp add: poolsGet_def)

lemma poolsGet_Missing:
  "poolsGet r name = Missing \<longleftrightarrow> pools r name = None \<and> name \<notin> set objectPrototypeNames"
  by (simp add: poolsGet_def split: option.splits)

lemma poolsSet_Missing:
  "poolsGet r name = Missing \<Longrightarrow> poolsSet r name cfg = r\<lparr>pools := (pools r)(name \<mapsto> cfg)\<rparr>"
  by (auto simp: poolsGet_Missing poolsSet_def objectPrototypeNames_def)

lemma poolsSet_own:
  "pools r name = Some old \<Longrightarrow> poolsSet r name cfg = r\<lparr>pools := (pools r)(name \<mapsto> cfg)\<rparr>"
  by (simp add: poolsSet_def)

lemma leaseLocked_unknown:
  assumes "registryFile s = Some r" and "poolsGet r poolName = Missing"
  shows "leaseLocked e poolName tg ident wt s = Some (Inl (UnknownPool poolName), s)"
  using assms by (simp add: leaseLocked_def getRegistry_def validatePool_def)

lemma leaseLocked_existing:
  "registryFile s = Some r \<Longrightarrow> poolsGet r poolName \<noteq> Missing \<Longrightarrow>
   getExistingLease r ident poolName tg = Some l \<Longrightarrow>
   leaseLocked e poolName tg ident wt s = Some (Inr (port l, l), s)"
  by (simp add: leaseLocked_def getRegistry_def validatePool_def)

lemma leaseLocked_inherited:
  "registryFile s = Some r \<Longrightarrow> poolsGet r poolName = Inherited \<Longrightarrow>
   getExistingLease r ident poolName tg = None \<Longrightarrow>
   leaseLocked e poolName tg ident wt s = Some (Inl (PoolExhaustedUndefined poolName), s)"
  by (simp add: leaseLocked_def getRegistry_def validatePool_def)

lemma leaseLocked_new:
  assumes "registryFile s = Some r" and "pools r poolName = Some cfg"
    and "getExistingLease r ident poolName tg = None"
    and "scanPorts (portChecker e) (getLeasedPorts r poolName) (rangeStart cfg) (rangeEnd cfg) =
           Some (Some p)"
    and "p \<noteq> 0"
  shows "leaseLocked e poolName tg ident wt s =
     Some (Inr (p, \<lparr>port = p, pool = poolName, identifier = ident, worktreePath = wt,
                     tag = tg, leasedAt = Some (clock s)\<rparr>),
           saveRegistry (r\<lparr>leases := leases r @
              [\<lparr>port = p, pool = poolName, identifier = ident, worktreePath = wt,
                tag = tg, leasedAt = Some (clock s)\<rparr>]\<rparr>) s)"
  using assms
  by (simp add: leaseLocked_def getRegistry_def validatePool_def poolsGet_own addLease_def Let_def)

lemma leaseLocked_exhausted:
  assumes "registryFile s = Some r" and "pools r poolName = Some cfg"
    and "getExistingLease r ident poolName tg = None"
    and "scanPorts (portChecker e) (getLeasedPorts r poolName) (rangeStart cfg) (rangeEnd cfg) =
           Some None
         \<or> scanPorts (portChecker e) (getLeasedPorts r poolName) (rangeStart cfg) (rangeEnd cfg) =
           Some (Some 0)"
  shows "leaseLocked e poolName tg ident wt s =
     Some (Inl (PoolExhausted poolName (rangeStart cfg) (rangeEnd cfg)), s)"
  using assms
  by (auto simp add: leaseLocked_def getRegistry_def validatePool_def poolsGet_own)

lemma leaseLocked_never:
  assumes "registryFile s = Some r" and "pools r poolName = Some cfg"
    and "getExistingLease r ident poolName tg = None"
    and "scanPorts (portChecker e) (getLeasedPorts r poolName) (rangeStart cfg) (rangeEnd cfg) = None"
  shows "leaseLocked e poolName tg ident wt s = None"
  using assms
  by (simp add: leaseLocked_def getRegistry_def validatePool_def poolsGet_own)

lemma lease_acquired:
  "poolName \<noteq> [] \<Longrightarrow> ident \<noteq> [] \<Longrightarrow> acquireLock 30000 s = (Inr (), s1) \<Longrightarrow>
   wt' = (if wt = [] then (case getGitRoot e of None \<Rightarrow> [] | Some g \<Rightarrow> g) else wt) \<Longrightarrow>
   lease e poolName tg ident wt s =
     map_option (\<lambda>(outcome, s2). (outcome, s2\<lparr>lockFile := None\<rparr>))
       (leaseLocked e poolName tg ident wt' s1)"
  by (simp add: lease_def Let_def withLockMay_acquired)

lemma lease_existing:
  assumes "poolName \<noteq> []" and "ident \<noteq> []"
    and "acquireLock 30000 s = (Inr (), s1)"
    and "registryFile s = Some r" and "poolsGet r poolName \<noteq> Missing"
    and "getExistingLease r ident poolName tg = Some l0"
  shows "lease e poolName tg ident wt s = Some (Inr (port l0, l0), s1\<lparr>lockFile := None\<rparr>)"
proof -
  have r1: "registryFile s1 = Some r"
    using acquireLock_registryFile [OF assms(3)] assms(4) by simp
  show ?thesis
    using lease_acquired [where wt = wt and e = e and tg = tg, OF assms(1,2,3) refl]
      leaseLocked_existing [OF r1 assms(5,6)]
    by simp
qed

text \<open>
  The same call again, on the file system the first call left: the lock is free there, and
  the lease the first call returned or appended is found.
\<close>

lemma lease_existing_again:
  assumes "poolName \<noteq> []" and "ident \<noteq> []"
    and "lockFile s' = None"
    and "registryFile s' = Some r'" and "poolsGet r' poolName \<noteq> Missing"
    and "getExistingLease r' ident poolName tg = Some l0"
  shows "lease e poolName tg ident wt s' = Some (Inr (port l0, l0), s')"
  using lease_existing [OF assms(1,2) acquireLock_free [OF assms(3)] assms(4,5,6), of e wt]
    unlock_free [OF assms(3)]
  by simp

text \<open>
  What \<open>lease\<close> does for a triple that holds no lease, in a pool whose bounds are within
  \<open>2^53\<close>, when the lowest port of the range that is neither leased in the pool nor in use
  is \<open>q\<close>, and \<open>q\<close> is not 0: it returns \<open>q\<close> and appends and saves the new lease.
\<close>

lemma lease_lowest_free:
  assumes "poolName \<noteq> []" and "ident \<noteq> []"
    and "acquireLock 30000 s = (Inr (), s1)"
    and "registryFile s = Some r" and "pools r poolName = Some cfg"
    and "\<forall>l \<in> set (leases r). \<not> (identifier l = ident \<and> pool l = poolName \<and> tag l = tg)"
    and "- (2 ^ 53) \<le> rangeStart cfg" and "rangeEnd cfg < 2 ^ 53"
    and "rangeStart cfg \<le> q" and "q \<le> rangeEnd cfg"
    and "\<not> (\<exists>l \<in> set (leases r). pool l = poolName \<and> port l = q)" and "\<not> portChecker e q"
    and "\<forall>x. rangeStart cfg \<le> x \<and> x < q \<longrightarrow>
           (\<exists>l \<in> set (leases r). pool l = poolName \<and> port l = x) \<or> portChecker e x"
    and "q \<noteq> 0"
    and "wt' = (if wt = [] then (case getGitRoot e of None \<Rightarrow> [] | Some g \<Rightarrow> g) else wt)"
    and "l' = \<lparr>port = q, pool = poolName, identifier = ident, worktreePath = wt',
               tag = tg, leasedAt = Some (clock s1)\<rparr>"
  shows "lease e poolName tg ident wt s =
     Some (Inr (q, l'),
           s1\<lparr>registryFile := Some (r\<lparr>leases := leases r @ [l'], lastModified := Some (clock s1)\<rparr>),
              lockFile := None\<rparr>)"
proof -
  have r1: "registryFile s1 = Some r"
    using acquireLock_registryFile [OF assms(3)] assms(4) by simp
  have none: "getExistingLease r ident poolName tg = None"
    using assms(6) by (simp add: getExistingLease_None)
  have scan: "scanPorts (portChecker e) (getLeasedPorts r poolName) (rangeStart cfg) (rangeEnd cfg) =
      Some (Some q)"
    using assms(9-13) by (intro scanPorts_first [OF assms(7,8)]) (simp_all add: getLeasedPorts_mem)
  show ?thesis
    using lease_acquired [where wt = wt and e = e and tg = tg, OF assms(1,2,3) assms(15)]
      leaseLocked_new [OF r1 assms(5) none scan assms(14), of wt'] assms(16)
    by (simp add: saveRegistry_def)
qed

text \<open>
  What a successful \<open>lease\<close> returns for a triple that held no lease, in such a pool: a port
  of the range, neither leased in the pool nor in use, below which every port of the range
  is one or the other.
\<close>

lemma lease_new_port:
  assumes "poolName \<noteq> []" and "ident \<noteq> []"
    and "acquireLock 30000 s = (Inr (), s1)"
    and "registryFile s = Some r" and "pools r poolName = Some cfg"
    and "\<forall>l \<in> set (leases r). \<not> (identifier l = ident \<and> pool l = poolName \<and> tag l = tg)"
    and "- (2 ^ 53) \<le> rangeStart cfg" and "rangeEnd cfg < 2 ^ 53"
    and "lease e poolName tg ident wt s = Some (Inr (p, l'), s')"
  shows "rangeStart cfg \<le> p \<and> p \<le> rangeEnd cfg \<and> p \<noteq> 0 \<and>
         \<not> (\<exists>l \<in> set (leases r). pool l = poolName \<and> port l = p) \<and> \<not> portChecker e p \<and>
         (\<forall>x. rangeStart cfg \<le> x \<and> x < p \<longrightarrow>
            (\<exists>l \<in> set (leases r). pool l = poolName \<and> port l = x) \<or> portChecker e x)"
proof -
  define w where "w = (if wt = [] then (case getGitRoot e of None \<Rightarrow> [] | Some g \<Rightarrow> g) else wt)"
  let ?scan = "scanPorts (portChecker e) (getLeasedPorts r poolName) (rangeStart cfg) (rangeEnd cfg)"
  have r1: "registryFile s1 = Some r"
    using acquireLock_registryFile [OF assms(3)] assms(4) by simp
  have none: "getExistingLease r ident poolName tg = None"
    using assms(6) by (simp add: getExistingLease_None)
  have call: "Some (Inr (p, l'), s') =
      map_option (\<lambda>(outcome, s2). (outcome, s2\<lparr>lockFile := None\<rparr>))
        (leaseLocked e poolName tg ident w s1)"
    using lease_acquired [where tg = tg, OF assms(1,2,3) w_def] assms(9) by simp
  obtain found where found: "?scan = Some found"
    using scanPorts_returns [OF assms(7,8)] by blast
  have "\<not> (found = None \<or> found = Some 0)"
  proof
    assume "found = None \<or> found = Some 0"
    then have "?scan = Some None \<or> ?scan = Some (Some 0)" using found by auto
    from leaseLocked_exhausted [OF r1 assms(5) none this] call show False by simp
  qed
  then obtain q where q: "?scan = Some (Some q)" "q \<noteq> 0" using found by (cases found) auto
  from leaseLocked_new [OF r1 assms(5) none q] call have "p = q" by simp
  with scanPorts_Some [OF assms(7,8) q(1)] q(2) show ?thesis by (simp add: getLeasedPorts_mem)
qed

text \<open>
  Where the range reaches \<open>2^53\<close> and that port is in use, a \<open>lease\<close> that gets there never
  returns, and the lock marker stays.
\<close>

lemma lease_never_returns:
  assumes "poolName \<noteq> []" and "ident \<noteq> []"
    and "acquireLock 30000 s = (Inr (), s1)"
    and "registryFile s = Some r" and "pools r poolName = Some cfg"
    and "\<forall>l \<in> set (leases r). \<not> (identifier l = ident \<and> pool l = poolName \<and> tag l = tg)"
    and "rangeStart cfg = 2 ^ 53" and "2 ^ 53 \<le> rangeEnd cfg" and "portChecker e (2 ^ 53)"
  shows "lease e poolName tg ident wt s = None"
proof -
  have r1: "registryFile s1 = Some r"
    using acquireLock_registryFile [OF assms(3)] assms(4) by simp
  have none: "getExistingLease r ident poolName tg = None"
    using assms(6) by (simp add: getExistingLease_None)
  have scan: "scanPorts (portChecker e) (getLeasedPorts r poolName) (rangeStart cfg) (rangeEnd cfg) = None"
    unfolding assms(7)
    using assms(8,9) by (intro scanPorts_at_2_53 [where probe = "portChecker e"])
  show ?thesis
    using lease_acquired [where wt = wt and e = e and tg = tg, OF assms(1,2,3) refl]
      leaseLocked_never [OF r1 assms(5) none scan]
    by simp
qed

text \<open>
  Claim C1 (lease idempotence), as amended. A call with a pool and an identifier, on a
  registry file that defines the pool, once the lock is taken. When the registry holds a
  lease for \<open>(identifier, pool, tag)\<close>, \<open>lease\<close> returns the first such lease of the list
  and its port (the one lease, when the triple has one), and leaves the file system it
  found with the lock marker removed: the registry file is the same and no lease is
  appended; the same call again, whatever its probe and worktree path, returns the same
  port and changes nothing. When the registry holds no lease for the triple and the lowest
  port of the range that is neither leased in the pool nor in use is \<open>q\<close>, not 0, in a
  range within \<open>2^53\<close>, the first call returns \<open>q\<close>, appends one lease and saves; the
  second call returns \<open>q\<close> and that lease and changes nothing, and the registry holds
  exactly one lease for the triple.
\<close>

theorem lease_idempotent:
  assumes "poolName \<noteq> []" and "ident \<noteq> []"
    and "acquireLock 30000 s = (Inr (), s1)"
    and "registryFile s = Some r" and "pools r poolName = Some cfg"
  shows
    "(l \<in> set (leases r) \<and> identifier l = ident \<and> pool l = poolName \<and> tag l = tg \<longrightarrow>
        (\<exists>l0. getExistingLease r ident poolName tg = Some l0 \<and>
              l0 \<in> set (leases r) \<and> identifier l0 = ident \<and> pool l0 = poolName \<and> tag l0 = tg \<and>
              (filter (\<lambda>l. identifier l = ident \<and> pool l = poolName \<and> tag l = tg) (leases r) = [l]
                 \<longrightarrow> l0 = l) \<and>
              lease e poolName tg ident wt s = Some (Inr (port l0, l0), s1\<lparr>lockFile := None\<rparr>) \<and>
              registryFile (s1\<lparr>lockFile := None\<rparr>) = Some r \<and>
              lease e' poolName tg ident wt' (s1\<lparr>lockFile := None\<rparr>) =
                Some (Inr (port l0, l0), s1\<lparr>lockFile := None\<rparr>))) \<and>
     ((\<forall>l \<in> set (leases r). \<not> (identifier l = ident \<and> pool l = poolName \<and> tag l = tg)) \<and>
      - (2 ^ 53) \<le> rangeStart cfg \<and> rangeEnd cfg < 2 ^ 53 \<and>
      rangeStart cfg \<le> q \<and> q \<le> rangeEnd cfg \<and> q \<noteq> 0 \<and>
      \<not> (\<exists>l \<in> set (leases r). pool l = poolName \<and> port l = q) \<and> \<not> portChecker e q \<and>
      (\<forall>x. rangeStart cfg \<le> x \<and> x < q \<longrightarrow>
         (\<exists>l \<in> set (leases r). pool l = poolName \<and> port l = x) \<or> portChecker e x) \<longrightarrow>
        (let l' = \<lparr>port = q, pool = poolName, identifier = ident,
                   worktreePath = (if wt = [] then (case getGitRoot e of None \<Rightarrow> [] | Some g \<Rightarrow> g)
                                   else wt),
                   tag = tg, leasedAt = Some (clock s1)\<rparr>;
             s' = s1\<lparr>registryFile :=
                       Some (r\<lparr>leases := leases r @ [l'], lastModified := Some (clock s1)\<rparr>),
                     lockFile := None\<rparr>
         in lease e poolName tg ident wt s = Some (Inr (q, l'), s') \<and>
            lease e' poolName tg ident wt' s' = Some (Inr (q, l'), s') \<and>
            filter (\<lambda>l. identifier l = ident \<and> pool l = poolName \<and> tag l = tg)
              (leases r @ [l']) = [l']))"
proof (intro conjI impI)
  let ?P = "\<lambda>l. identifier l = ident \<and> pool l = poolName \<and> tag l = tg"
  assume l: "l \<in> set (leases r) \<and> identifier l = ident \<and> pool l = poolName \<and> tag l = tg"
  then have "getExistingLease r ident poolName tg \<noteq> None"
    by (auto simp: getExistingLease_None)
  then obtain l0 where l0: "getExistingLease r ident poolName tg = Some l0" by auto
  have known: "poolsGet r poolName \<noteq> Missing" using assms(5) by (simp add: poolsGet_own)
  have r1: "registryFile (s1\<lparr>lockFile := None\<rparr>) = Some r"
    using acquireLock_registryFile [OF assms(3)] assms(4) by simp
  have first: "lease e poolName tg ident wt s = Some (Inr (port l0, l0), s1\<lparr>lockFile := None\<rparr>)"
    by (rule lease_existing [OF assms(1,2,3,4) known l0])
  have again: "lease e' poolName tg ident wt' (s1\<lparr>lockFile := None\<rparr>) =
      Some (Inr (port l0, l0), s1\<lparr>lockFile := None\<rparr>)"
    by (rule lease_existing_again [OF assms(1,2) _ r1 known l0]) simp
  have only: "filter ?P (leases r) = [l] \<longrightarrow> l0 = l"
  proof
    assume "filter ?P (leases r) = [l]"
    moreover from getExistingLease_Some [OF l0] have "l0 \<in> set (filter ?P (leases r))" by simp
    ultimately show "l0 = l" by simp
  qed
  from l0 getExistingLease_Some [OF l0] only first r1 again
  show "\<exists>l0. getExistingLease r ident poolName tg = Some l0 \<and>
              l0 \<in> set (leases r) \<and> identifier l0 = ident \<and> pool l0 = poolName \<and> tag l0 = tg \<and>
              (filter ?P (leases r) = [l] \<longrightarrow> l0 = l) \<and>
              lease e poolName tg ident wt s = Some (Inr (port l0, l0), s1\<lparr>lockFile := None\<rparr>) \<and>
              registryFile (s1\<lparr>lockFile := None\<rparr>) = Some r \<and>
              lease e' poolName tg ident wt' (s1\<lparr>lockFile := None\<rparr>) =
                Some (Inr (port l0, l0), s1\<lparr>lockFile := None\<rparr>)"
    by blast
next
  let ?P = "\<lambda>l. identifier l = ident \<and> pool l = poolName \<and> tag l = tg"
  assume a: "(\<forall>l \<in> set (leases r). \<not> (identifier l = ident \<and> pool l = poolName \<and> tag l = tg)) \<and>
      - (2 ^ 53) \<le> rangeStart cfg \<and> rangeEnd cfg < 2 ^ 53 \<and>
      rangeStart cfg \<le> q \<and> q \<le> rangeEnd cfg \<and> q \<noteq> 0 \<and>
      \<not> (\<exists>l \<in> set (leases r). pool l = poolName \<and> port l = q) \<and> \<not> portChecker e q \<and>
      (\<forall>x. rangeStart cfg \<le> x \<and> x < q \<longrightarrow>
         (\<exists>l \<in> set (leases r). pool l = poolName \<and> port l = x) \<or> portChecker e x)"
  define w where "w = (if wt = [] then (case getGitRoot e of None \<Rightarrow> [] | Some g \<Rightarrow> g) else wt)"
  define l' where "l' = \<lparr>port = q, pool = poolName, identifier = ident, worktreePath = w,
                         tag = tg, leasedAt = Some (clock s1)\<rparr>"
  define r' where "r' = r\<lparr>leases := leases r @ [l'], lastModified := Some (clock s1)\<rparr>"
  define s' where "s' = s1\<lparr>registryFile := Some r', lockFile := None\<rparr>"
  from a have none: "\<forall>l \<in> set (leases r). \<not> ?P l" by blast
  have first: "lease e poolName tg ident wt s = Some (Inr (q, l'), s')"
    unfolding s'_def r'_def
    using a by (intro lease_lowest_free [OF assms(1-5) none _ _ _ _ _ _ _ _ w_def l'_def]) blast+
  have find0: "find ?P (leases r) = None" using none by (simp add: find_None_iff)
  have ex': "getExistingLease r' ident poolName tg = Some l'"
    unfolding getExistingLease_def r'_def using find_append_last [OF find0, of l']
    by (simp add: l'_def)
  have known': "poolsGet r' poolName \<noteq> Missing"
    using assms(5) by (simp add: r'_def poolsGet_def)
  have again: "lease e' poolName tg ident wt' s' = Some (Inr (port l', l'), s')"
    by (rule lease_existing_again [OF assms(1,2) _ _ known' ex']) (simp_all add: s'_def)
  have one: "filter ?P (leases r @ [l']) = [l']"
    using none by (simp add: filter_empty_conv l'_def)
  have "port l' = q" by (simp add: l'_def)
  with first again one
  show "let l' = \<lparr>port = q, pool = poolName, identifier = ident,
                   worktreePath = (if wt = [] then (case getGitRoot e of None \<Rightarrow> [] | Some g \<Rightarrow> g)
                                   else wt),
                   tag = tg, leasedAt = Some (clock s1)\<rparr>;
             s' = s1\<lparr>registryFile :=
                       Some (r\<lparr>leases := leases r @ [l'], lastModified := Some (clock s1)\<rparr>),
                     lockFile := None\<rparr>
         in lease e poolName tg ident wt s = Some (Inr (q, l'), s') \<and>
            lease e' poolName tg ident wt' s' = Some (Inr (q, l'), s') \<and>
            filter (\<lambda>l. identifier l = ident \<and> pool l = poolName \<and> tag l = tg)
              (leases r @ [l']) = [l']"
    unfolding Let_def l'_def [symmetric] w_def [symmetric] r'_def [symmetric] s'_def [symmetric]
    by simp
qed

text \<open>
  At \<open>oneLeaseFs\<close> the lease is in the registry before the first call; at \<open>freshFs\<close> the
  registry is the default one, without leases, and the first call creates the lease.
\<close>

theorem lease_idempotent_witness:
  "acquireLock 30000 oneLeaseFs = (Inr (), oneLeaseFs\<lparr>lockFile := Some 5\<rparr>) \<and>
   lease quietEnv ''frontend'' [] ''proj'' ''/w'' oneLeaseFs = Some (Inr (3300, projLease), oneLeaseFs) \<and>
   lease busyEnv ''frontend'' [] ''proj'' ''/other'' oneLeaseFs = Some (Inr (3300, projLease), oneLeaseFs) \<and>
   acquireLock 30000 freshFs = (Inr (), freshFs\<lparr>lockFile := Some 5\<rparr>) \<and>
   lease quietEnv ''frontend'' [] ''proj'' ''/w'' freshFs = Some (Inr (3300, freshLease), leasedFs) \<and>
   lease busyEnv ''frontend'' [] ''proj'' ''/other'' leasedFs = Some (Inr (3300, freshLease), leasedFs) \<and>
   filter (\<lambda>l. identifier l = ''proj'' \<and> pool l = ''frontend'' \<and> tag l = [])
     (leases (getDefaultRegistry\<lparr>leases := [freshLease], lastModified := Some 5\<rparr>)) = [freshLease]"
proof -
  let ?r = "getDefaultRegistry\<lparr>leases := [projLease]\<rparr>"
  let ?cfg = "\<lparr>rangeStart = 3300, rangeEnd = 3499\<rparr>"
  have acq: "acquireLock 30000 oneLeaseFs = (Inr (), oneLeaseFs\<lparr>lockFile := Some 5\<rparr>)"
    using acquireLock_free [of oneLeaseFs 30000] by simp
  have acq0: "acquireLock 30000 freshFs = (Inr (), freshFs\<lparr>lockFile := Some 5\<rparr>)"
    using acquireLock_free [of freshFs 30000] by simp
  have pl: "pools ?r ''frontend'' = Some ?cfg" by (simp add: getDefaultRegistry_def)
  have pl0: "pools getDefaultRegistry ''frontend'' = Some ?cfg" by (simp add: getDefaultRegistry_def)
  have ex: "getExistingLease ?r ''proj'' ''frontend'' [] = Some projLease"
    by (simp add: getExistingLease_def)
  note th = lease_idempotent [where poolName = "''frontend''" and ident = "''proj''" and tg = "[]"
      and s = oneLeaseFs and r = ?r and l = projLease and e = quietEnv and wt = "''/w''"
      and e' = busyEnv and wt' = "''/other''" and q = 0, OF _ _ acq _ pl]
  have a: "lease quietEnv ''frontend'' [] ''proj'' ''/w'' oneLeaseFs = Some (Inr (3300, projLease), oneLeaseFs)"
    using th ex by simp
  have b: "lease busyEnv ''frontend'' [] ''proj'' ''/other'' oneLeaseFs = Some (Inr (3300, projLease), oneLeaseFs)"
    using th ex by simp
  note th0 = lease_idempotent [where poolName = "''frontend''" and ident = "''proj''" and tg = "[]"
      and s = freshFs and r = getDefaultRegistry and l = projLease and e = quietEnv and wt = "''/w''"
      and e' = busyEnv and wt' = "''/other''" and q = 3300, OF _ _ acq0 _ pl0]
  have nolease: "leases getDefaultRegistry = []" by (simp add: getDefaultRegistry_def)
  have c: "lease quietEnv ''frontend'' [] ''proj'' ''/w'' freshFs = Some (Inr (3300, freshLease), leasedFs) \<and>
      lease busyEnv ''frontend'' [] ''proj'' ''/other'' leasedFs = Some (Inr (3300, freshLease), leasedFs)"
    using th0 nolease by (simp add: Let_def)
  have d: "filter (\<lambda>l. identifier l = ''proj'' \<and> pool l = ''frontend'' \<and> tag l = [])
     (leases (getDefaultRegistry\<lparr>leases := [freshLease], lastModified := Some 5\<rparr>)) = [freshLease]"
    by simp
  from acq a b acq0 c d show ?thesis by blast
qed

text \<open>
  The claim as stated speaks of every registry that holds a lease for the triple. In
  \<open>orphanFs\<close> the registry file holds a lease of a pool \<open>ghost\<close> that \<open>pools\<close> does not
  define: \<open>lease\<close> fails on the unknown pool, which it checks first. In \<open>doubleFs\<close> two
  leases carry the same triple: \<open>lease\<close> returns the port of the first, and the registry
  goes on holding two records for the triple.
\<close>

theorem lease_idempotent_counterexample:
  "orphanLease \<in> set (leases (getDefaultRegistry\<lparr>leases := [orphanLease]\<rparr>)) \<and>
   lease quietEnv ''ghost'' [] ''proj'' ''/w'' orphanFs = Some (Inl (UnknownPool ''ghost''), orphanFs) \<and>
   lease quietEnv ''frontend'' [] ''proj'' ''/w'' doubleFs = Some (Inr (3300, projLease), doubleFs) \<and>
   length (filter (\<lambda>l. identifier l = ''proj'' \<and> pool l = ''frontend'' \<and> tag l = [])
             (leases (getDefaultRegistry\<lparr>leases := [projLease, doubleLease]\<rparr>))) = 2"
proof -
  have acq1: "acquireLock 30000 orphanFs = (Inr (), orphanFs\<lparr>lockFile := Some 5\<rparr>)"
    using acquireLock_free [of orphanFs 30000] by simp
  have acq2: "acquireLock 30000 doubleFs = (Inr (), doubleFs\<lparr>lockFile := Some 5\<rparr>)"
    using acquireLock_free [of doubleFs 30000] by simp
  have miss: "poolsGet (getDefaultRegistry\<lparr>leases := [orphanLease]\<rparr>) ''ghost'' = Missing"
    by (simp add: poolsGet_def getDefaultRegistry_def objectPrototypeNames_def)
  have a: "lease quietEnv ''ghost'' [] ''proj'' ''/w'' orphanFs = Some (Inl (UnknownPool ''ghost''), orphanFs)"
    using lease_acquired [where wt = "''/w''" and e = quietEnv and tg = "[]"
        and poolName = "''ghost''" and ident = "''proj''", OF _ _ acq1 refl]
      leaseLocked_unknown [of "orphanFs\<lparr>lockFile := Some 5\<rparr>" _ "''ghost''", OF _ miss]
    by simp
  have known: "poolsGet (getDefaultRegistry\<lparr>leases := [projLease, doubleLease]\<rparr>) ''frontend'' \<noteq> Missing"
    by (simp add: poolsGet_def getDefaultRegistry_def)
  have ex: "getExistingLease (getDefaultRegistry\<lparr>leases := [projLease, doubleLease]\<rparr>)
      ''proj'' ''frontend'' [] = Some projLease"
    by (simp add: getExistingLease_def)
  have b: "lease quietEnv ''frontend'' [] ''proj'' ''/w'' doubleFs = Some (Inr (3300, projLease), doubleFs)"
    using lease_existing [where poolName = "''frontend''" and ident = "''proj''" and tg = "[]"
        and s = doubleFs and e = quietEnv and wt = "''/w''", OF _ _ acq2 _ known ex]
    by simp
  from a b show ?thesis by simp
qed

text \<open>
  Claim C3 (pool exhaustion leaves the registry alone), as amended. A call with a pool and
  an identifier on a pool of the registry whose bounds are within \<open>2^53\<close>, once the lock is
  taken, for a triple \<open>(identifier, pool, tag)\<close> that holds no lease: when every port of
  \<open>[rangeStart, rangeEnd]\<close> is the port of a lease of that pool or is reported in use,
  \<open>lease\<close> returns, it fails with the exhaustion error, which carries the pool name and both
  bounds, and the registry file is the one found (nothing appended, nothing saved).
\<close>

theorem lease_exhausted:
  assumes "poolName \<noteq> []" and "ident \<noteq> []"
    and "acquireLock 30000 s = (Inr (), s1)"
    and "registryFile s = Some r" and "pools r poolName = Some cfg"
    and "- (2 ^ 53) \<le> rangeStart cfg" and "rangeEnd cfg < 2 ^ 53"
    and "\<forall>l \<in> set (leases r). \<not> (identifier l = ident \<and> pool l = poolName \<and> tag l = tg)"
    and "\<forall>x. rangeStart cfg \<le> x \<and> x \<le> rangeEnd cfg \<longrightarrow>
           (\<exists>l \<in> set (leases r). pool l = poolName \<and> port l = x) \<or> portChecker e x"
  shows "lease e poolName tg ident wt s =
           Some (Inl (PoolExhausted poolName (rangeStart cfg) (rangeEnd cfg)), s1\<lparr>lockFile := None\<rparr>) \<and>
         registryFile (s1\<lparr>lockFile := None\<rparr>) = Some r"
proof -
  have r1: "registryFile s1 = Some r"
    using acquireLock_registryFile [OF assms(3)] assms(4) by simp
  have none: "getExistingLease r ident poolName tg = None"
    using assms(8) by (simp add: getExistingLease_None)
  have scan: "scanPorts (portChecker e) (getLeasedPorts r poolName) (rangeStart cfg) (rangeEnd cfg) =
      Some None"
    using assms(9) by (simp add: scanPorts_None [OF assms(6,7)] getLeasedPorts_mem)
  have "leaseLocked e poolName tg ident
          (if wt = [] then (case getGitRoot e of None \<Rightarrow> [] | Some g \<Rightarrow> g) else wt) s1 =
        Some (Inl (PoolExhausted poolName (rangeStart cfg) (rangeEnd cfg)), s1)"
    using leaseLocked_exhausted [OF r1 assms(5) none] scan by simp
  then show ?thesis
    using lease_acquired [where wt = wt and e = e and tg = tg, OF assms(1,2,3) refl] r1 by simp
qed

theorem lease_exhausted_witness:
  "acquireLock 30000 tinyFs = (Inr (), tinyFs\<lparr>lockFile := Some 5\<rparr>) \<and>
   lease quietEnv ''tiny'' ''c'' ''proj'' ''/w'' tinyFs = Some (Inl (PoolExhausted ''tiny'' 1 2), tinyFs) \<and>
   lease quietEnv ''tiny'' ''a'' ''other'' ''/w'' tinyFs = Some (Inl (PoolExhausted ''tiny'' 1 2), tinyFs)"
proof -
  have acq: "acquireLock 30000 tinyFs = (Inr (), tinyFs\<lparr>lockFile := Some 5\<rparr>)"
    using acquireLock_free [of tinyFs 30000] by simp
  have full: "\<forall>x. rangeStart \<lparr>rangeStart = 1, rangeEnd = 2\<rparr> \<le> x \<and> x \<le> rangeEnd \<lparr>rangeStart = 1, rangeEnd = 2\<rparr> \<longrightarrow>
           (\<exists>l \<in> set (leases tinyRegistry). pool l = ''tiny'' \<and> port l = x) \<or> portChecker quietEnv x"
  proof (intro allI impI)
    fix x :: int
    assume "rangeStart \<lparr>rangeStart = 1, rangeEnd = 2\<rparr> \<le> x \<and> x \<le> rangeEnd \<lparr>rangeStart = 1, rangeEnd = 2\<rparr>"
    then have "x = 1 \<or> x = 2" by auto
    then show "(\<exists>l \<in> set (leases tinyRegistry). pool l = ''tiny'' \<and> port l = x) \<or> portChecker quietEnv x"
      by auto
  qed
  have lo: "- (2 ^ 53) \<le> rangeStart \<lparr>rangeStart = 1, rangeEnd = (2::int)\<rparr>" by simp
  have hi: "rangeEnd \<lparr>rangeStart = (1::int), rangeEnd = 2\<rparr> < 2 ^ 53" by simp
  have c: "lease quietEnv ''tiny'' ''c'' ''proj'' ''/w'' tinyFs = Some (Inl (PoolExhausted ''tiny'' 1 2), tinyFs)"
    using lease_exhausted [where poolName = "''tiny''" and ident = "''proj''" and tg = "''c''"
        and s = tinyFs and r = tinyRegistry and e = quietEnv and wt = "''/w''", OF _ _ acq _ _ lo hi _ full]
    by simp
  have d: "lease quietEnv ''tiny'' ''a'' ''other'' ''/w'' tinyFs = Some (Inl (PoolExhausted ''tiny'' 1 2), tinyFs)"
    using lease_exhausted [where poolName = "''tiny''" and ident = "''other''" and tg = "''a''"
        and s = tinyFs and r = tinyRegistry and e = quietEnv and wt = "''/w''", OF _ _ acq _ _ lo hi _ full]
    by simp
  from acq c d show ?thesis by simp
qed

text \<open>
  The claim as stated does not ask that the triple holds no lease. In \<open>tinyRegistry\<close>
  both ports of the pool are leased; the holder of the lease tagged \<open>a\<close> asks again and
  gets its port back instead of the exhaustion error, since \<open>lease\<close> looks for an existing
  lease before it scans.
\<close>

theorem lease_exhausted_counterexample:
  "{1..2} \<subseteq> set (getLeasedPorts tinyRegistry ''tiny'') \<and>
   lease quietEnv ''tiny'' ''a'' ''proj'' ''/w'' tinyFs = Some (Inr (1, tinyLeaseA), tinyFs)"
proof -
  have acq: "acquireLock 30000 tinyFs = (Inr (), tinyFs\<lparr>lockFile := Some 5\<rparr>)"
    using acquireLock_free [of tinyFs 30000] by simp
  have ex: "getExistingLease tinyRegistry ''proj'' ''tiny'' ''a'' = Some tinyLeaseA"
    by (simp add: getExistingLease_def)
  have known: "poolsGet tinyRegistry ''tiny'' \<noteq> Missing" by (simp add: poolsGet_def)
  have "lease quietEnv ''tiny'' ''a'' ''proj'' ''/w'' tinyFs = Some (Inr (1, tinyLeaseA), tinyFs)"
    using lease_existing [where poolName = "''tiny''" and ident = "''proj''" and tg = "''a''"
        and s = tinyFs and r = tinyRegistry and e = quietEnv and wt = "''/w''", OF _ _ acq _ known ex]
    by simp
  moreover have "{1..2} \<subseteq> set (getLeasedPorts tinyRegistry ''tiny'')"
    by (auto simp: getLeasedPorts_def)
  ultimately show ?thesis by simp
qed

lemma poolAddLocked_eq:
  "registryFile s = Some r \<Longrightarrow>
   poolAddLocked poolName newStart newEnd s =
     (if poolsGet r poolName \<noteq> Missing then (Inl (PoolAlreadyExists poolName), s)
      else (Inr (poolName, newStart, newEnd),
            s\<lparr>registryFile := Some (r\<lparr>pools := (pools r)(poolName \<mapsto> \<lparr>rangeStart = newStart, rangeEnd = newEnd\<rparr>),
                                      lastModified := Some (clock s)\<rparr>)\<rparr>))"
  by (simp add: poolAddLocked_def getRegistry_def addPool_def saveRegistry_def poolsSet_Missing)

lemma poolAdd_acquired:
  "poolName \<noteq> [] \<Longrightarrow> newStart \<noteq> 0 \<Longrightarrow> newEnd \<noteq> 0 \<Longrightarrow> newStart < newEnd \<Longrightarrow>
   acquireLock 30000 s = (Inr (), s1) \<Longrightarrow>
   poolAdd poolName newStart newEnd s =
     (fst (poolAddLocked poolName newStart newEnd s1),
      (snd (poolAddLocked poolName newStart newEnd s1))\<lparr>lockFile := None\<rparr>)"
  by (simp add: poolAdd_def withLock_acquired)

text \<open>
  Claim C2 (the lowest free port) at a pool that contains port 0. From the default
  registry, \<open>poolAdd\<close> accepts the pool \<open>neg\<close> with the range \<open>[-1, 1]\<close>; the first
  \<open>lease\<close> in it returns port \<open>-1\<close>; for the second, under another tag, the scan skips
  \<open>-1\<close> and stops at port 0, which is in the range, not leased and not in use, and the
  test \<open>!foundPort\<close> then reports the pool as exhausted and nothing is saved. The same
  happens at once in a registry file whose pool starts at 0 (\<open>zeroPoolFs\<close>).
\<close>

theorem lease_port_zero_exhausted:
  "poolAdd ''neg'' (- 1) 1 freshFs = (Inr (''neg'', - 1, 1), negFs) \<and>
   lease quietEnv ''neg'' ''a'' ''proj'' ''/w'' negFs = Some (Inr (- 1, negLease), negLeasedFs) \<and>
   lease quietEnv ''neg'' ''b'' ''proj'' ''/w'' negLeasedFs =
     Some (Inl (PoolExhausted ''neg'' (- 1) 1), negLeasedFs) \<and>
   0 \<notin> set (getLeasedPorts (getDefaultRegistry\<lparr>pools := negPools, leases := [negLease],
                                                lastModified := Some 5\<rparr>) ''neg'') \<and>
   \<not> portChecker quietEnv 0 \<and>
   lease quietEnv ''z'' [] ''proj'' ''/w'' zeroPoolFs =
     Some (Inl (PoolExhausted ''z'' 0 10), zeroPoolFs)"
proof -
  have acq0: "acquireLock 30000 freshFs = (Inr (), freshFs\<lparr>lockFile := Some 5\<rparr>)"
    using acquireLock_free [of freshFs 30000] by simp
  have acq1: "acquireLock 30000 negFs = (Inr (), negFs\<lparr>lockFile := Some 5\<rparr>)"
    using acquireLock_free [of negFs 30000] by simp
  have acq2: "acquireLock 30000 negLeasedFs = (Inr (), negLeasedFs\<lparr>lockFile := Some 5\<rparr>)"
    using acquireLock_free [of negLeasedFs 30000] by simp
  have acq3: "acquireLock 30000 zeroPoolFs = (Inr (), zeroPoolFs\<lparr>lockFile := Some 5\<rparr>)"
    using acquireLock_free [of zeroPoolFs 30000] by simp
  have a: "poolAdd ''neg'' (- 1) 1 freshFs = (Inr (''neg'', - 1, 1), negFs)"
    using poolAdd_acquired [OF _ _ _ _ acq0, of "''neg''" "- 1" 1]
      poolAddLocked_eq [of "freshFs\<lparr>lockFile := Some 5\<rparr>" getDefaultRegistry "''neg''" "- 1" 1]
    by (simp add: getDefaultRegistry_def poolsGet_def objectPrototypeNames_def)
  have b: "lease quietEnv ''neg'' ''a'' ''proj'' ''/w'' negFs = Some (Inr (- 1, negLease), negLeasedFs)"
    using lease_acquired [where wt = "''/w''" and e = quietEnv and tg = "''a''"
        and poolName = "''neg''" and ident = "''proj''", OF _ _ acq1 refl]
    by (simp add: leaseLocked_def getRegistry_def validatePool_def poolsGet_def getExistingLease_def
        getLeasedPorts_def scanPorts.simps addLease_def saveRegistry_def getDefaultRegistry_def Let_def)
  have c: "lease quietEnv ''neg'' ''b'' ''proj'' ''/w'' negLeasedFs =
     Some (Inl (PoolExhausted ''neg'' (- 1) 1), negLeasedFs)"
    using lease_acquired [where wt = "''/w''" and e = quietEnv and tg = "''b''"
        and poolName = "''neg''" and ident = "''proj''", OF _ _ acq2 refl]
    by (simp add: leaseLocked_def getRegistry_def validatePool_def poolsGet_def getExistingLease_def
        getLeasedPorts_def scanPorts.simps jsInc_def getDefaultRegistry_def Let_def)
  have d: "lease quietEnv ''z'' [] ''proj'' ''/w'' zeroPoolFs =
      Some (Inl (PoolExhausted ''z'' 0 10), zeroPoolFs)"
    using lease_acquired [where wt = "''/w''" and e = quietEnv and tg = "[]"
        and poolName = "''z''" and ident = "''proj''", OF _ _ acq3 refl]
    by (simp add: leaseLocked_def getRegistry_def validatePool_def poolsGet_def getExistingLease_def
        getLeasedPorts_def scanPorts.simps getDefaultRegistry_def Let_def)
  have e: "0 \<notin> set (getLeasedPorts (getDefaultRegistry\<lparr>pools := negPools, leases := [negLease],
                                                lastModified := Some 5\<rparr>) ''neg'')"
    by (simp add: getLeasedPorts_def)
  from a b c d e show ?thesis by simp
qed

section \<open>Releasing\<close>

lemma removed_count:
  "length xs - length (filter (\<lambda>x. \<not> P x) xs) = length (filter P xs)"
  using sum_length_filter_compl [of P xs] by simp

lemma removed_none:
  "length xs \<le> length (filter (\<lambda>x. \<not> P x) xs) \<longleftrightarrow> filter P xs = []"
proof -
  have "length (filter P xs) = 0 \<longleftrightarrow> length xs \<le> length (filter (\<lambda>x. \<not> P x) xs)"
    using sum_length_filter_compl [of P xs] by linarith
  then show ?thesis by simp
qed

lemma release_acquired:
  "ident \<noteq> [] \<Longrightarrow> acquireLock 30000 s = (Inr (), s1) \<Longrightarrow>
   release e tagArg ident s =
     (fst (releaseLocked tagArg ident s1), (snd (releaseLocked tagArg ident s1))\<lparr>lockFile := None\<rparr>)"
  by (simp add: release_def withLock_acquired)

lemma releaseLocked_all:
  "registryFile s = Some r \<Longrightarrow>
   releaseLocked None ident s =
     (if filter (\<lambda>l. identifier l = ident) (leases r) = [] then (Inl NoLeasesForProject, s)
      else (Inr (length (filter (\<lambda>l. identifier l = ident) (leases r)),
                 filter (\<lambda>l. identifier l \<noteq> ident) (leases r)),
            s\<lparr>registryFile := Some (r\<lparr>leases := filter (\<lambda>l. identifier l \<noteq> ident) (leases r),
                                      lastModified := Some (clock s)\<rparr>)\<rparr>))"
  using removed_count [of "leases r" "\<lambda>l. identifier l = ident"]
    removed_none [of "leases r" "\<lambda>l. identifier l = ident"]
  by (simp add: releaseLocked_def getRegistry_def removeLeasesByIdentifier_def saveRegistry_def Let_def)

lemma releaseLocked_tag:
  "registryFile s = Some r \<Longrightarrow>
   releaseLocked (Some tg) ident s =
     (if filter (\<lambda>l. identifier l = ident \<and> tag l = tg) (leases r) = [] then (Inl (NoLeaseWithTag tg), s)
      else (Inr (length (filter (\<lambda>l. identifier l = ident \<and> tag l = tg) (leases r)),
                 filter (\<lambda>l. \<not> (identifier l = ident \<and> tag l = tg)) (leases r)),
            s\<lparr>registryFile := Some (r\<lparr>leases := filter (\<lambda>l. \<not> (identifier l = ident \<and> tag l = tg)) (leases r),
                                      lastModified := Some (clock s)\<rparr>)\<rparr>))"
  using removed_count [of "leases r" "\<lambda>l. identifier l = ident \<and> tag l = tg"]
    removed_none [of "leases r" "\<lambda>l. identifier l = ident \<and> tag l = tg"]
  by (simp add: releaseLocked_def getRegistry_def removeLeasesByTag_def saveRegistry_def Let_def)

text \<open>
  Claim C4 (the tag of \<open>release\<close> has three states). For a call with an identifier, once
  the lock is taken, on the registry file \<open>r\<close>. With the tag left out, the leases removed
  are those of the identifier, whatever their tag; with a tag \<open>tg\<close> given (the empty string
  is a tag like any other), they are those of the identifier whose tag is \<open>tg\<close>, and no
  others. When none matches, \<open>release\<close> fails (\<open>NoLeasesForProject\<close>, \<open>NoLeaseWithTag\<close>:
  the two messages of the "nothing to release" failure) and the registry file is the one
  found; otherwise the leases kept, in their order, are saved and returned, and
  \<open>removedCount\<close> is the number of leases that matched.
\<close>

theorem release_tristate:
  assumes "ident \<noteq> []" and "acquireLock 30000 s = (Inr (), s1)" and "registryFile s = Some r"
  shows
    "release e None ident s =
       (if filter (\<lambda>l. identifier l = ident) (leases r) = []
        then (Inl NoLeasesForProject, s1\<lparr>lockFile := None\<rparr>)
        else (Inr (length (filter (\<lambda>l. identifier l = ident) (leases r)),
                   filter (\<lambda>l. identifier l \<noteq> ident) (leases r)),
              s1\<lparr>registryFile := Some (r\<lparr>leases := filter (\<lambda>l. identifier l \<noteq> ident) (leases r),
                                         lastModified := Some (clock s1)\<rparr>),
                 lockFile := None\<rparr>)) \<and>
     release e (Some tg) ident s =
       (if filter (\<lambda>l. identifier l = ident \<and> tag l = tg) (leases r) = []
        then (Inl (NoLeaseWithTag tg), s1\<lparr>lockFile := None\<rparr>)
        else (Inr (length (filter (\<lambda>l. identifier l = ident \<and> tag l = tg) (leases r)),
                   filter (\<lambda>l. \<not> (identifier l = ident \<and> tag l = tg)) (leases r)),
              s1\<lparr>registryFile := Some (r\<lparr>leases := filter (\<lambda>l. \<not> (identifier l = ident \<and> tag l = tg)) (leases r),
                                         lastModified := Some (clock s1)\<rparr>),
                 lockFile := None\<rparr>)) \<and>
     registryFile (s1\<lparr>lockFile := None\<rparr>) = Some r"
proof -
  have r1: "registryFile s1 = Some r"
    using acquireLock_registryFile [OF assms(2)] assms(3) by simp
  have a: "release e None ident s =
      (fst (releaseLocked None ident s1), (snd (releaseLocked None ident s1))\<lparr>lockFile := None\<rparr>)"
    by (rule release_acquired [OF assms(1,2)])
  have b: "release e (Some tg) ident s =
      (fst (releaseLocked (Some tg) ident s1), (snd (releaseLocked (Some tg) ident s1))\<lparr>lockFile := None\<rparr>)"
    by (rule release_acquired [OF assms(1,2)])
  show ?thesis
    unfolding a b releaseLocked_all [OF r1] releaseLocked_tag [OF r1]
    using r1 by simp
qed

theorem release_tristate_witness:
  "acquireLock 30000 threeLeaseFs = (Inr (), threeLeaseFs\<lparr>lockFile := Some 5\<rparr>) \<and>
   release quietEnv None ''proj'' threeLeaseFs =
     (Inr (2, [otherLease]),
      threeLeaseFs\<lparr>registryFile :=
        Some (getDefaultRegistry\<lparr>leases := [otherLease], lastModified := Some 5\<rparr>)\<rparr>) \<and>
   release quietEnv (Some []) ''proj'' threeLeaseFs =
     (Inr (1, [apiLease, otherLease]),
      threeLeaseFs\<lparr>registryFile :=
        Some (getDefaultRegistry\<lparr>leases := [apiLease, otherLease], lastModified := Some 5\<rparr>)\<rparr>) \<and>
   release quietEnv None ''nobody'' threeLeaseFs = (Inl NoLeasesForProject, threeLeaseFs) \<and>
   release quietEnv (Some ''web'') ''proj'' threeLeaseFs = (Inl (NoLeaseWithTag ''web''), threeLeaseFs)"
proof -
  let ?r = "getDefaultRegistry\<lparr>leases := [untaggedLease, apiLease, otherLease]\<rparr>"
  have acq: "acquireLock 30000 threeLeaseFs = (Inr (), threeLeaseFs\<lparr>lockFile := Some 5\<rparr>)"
    using acquireLock_free [of threeLeaseFs 30000] by simp
  have a: "release quietEnv None ''proj'' threeLeaseFs =
     (Inr (2, [otherLease]),
      threeLeaseFs\<lparr>registryFile :=
        Some (getDefaultRegistry\<lparr>leases := [otherLease], lastModified := Some 5\<rparr>)\<rparr>)"
    using release_tristate [where ident = "''proj''" and s = threeLeaseFs and r = ?r
        and e = quietEnv and tg = "[]", OF _ acq]
    by simp
  have b: "release quietEnv (Some []) ''proj'' threeLeaseFs =
     (Inr (1, [apiLease, otherLease]),
      threeLeaseFs\<lparr>registryFile :=
        Some (getDefaultRegistry\<lparr>leases := [apiLease, otherLease], lastModified := Some 5\<rparr>)\<rparr>)"
    using release_tristate [where ident = "''proj''" and s = threeLeaseFs and r = ?r
        and e = quietEnv and tg = "[]", OF _ acq]
    by simp
  have c: "release quietEnv None ''nobody'' threeLeaseFs = (Inl NoLeasesForProject, threeLeaseFs)"
    using release_tristate [where ident = "''nobody''" and s = threeLeaseFs and r = ?r
        and e = quietEnv and tg = "[]", OF _ acq]
    by simp
  have d: "release quietEnv (Some ''web'') ''proj'' threeLeaseFs = (Inl (NoLeaseWithTag ''web''), threeLeaseFs)"
    using release_tristate [where ident = "''proj''" and s = threeLeaseFs and r = ?r
        and e = quietEnv and tg = "''web''", OF _ acq]
    by simp
  from acq a b c d show ?thesis by simp
qed

section \<open>Pools\<close>

lemma poolUpdateLocked_eq:
  "registryFile s = Some r \<Longrightarrow>
   poolUpdateLocked poolName newStart newEnd s =
     (if filter (\<lambda>l. (pool l = poolName \<or> pool l = poolName @ ''-https'') \<and>
                       (port l < newStart \<or> port l > newEnd)) (leases r) \<noteq> []
      then (Inl (LeasesOutsideRange
                   (length (filter (\<lambda>l. (pool l = poolName \<or> pool l = poolName @ ''-https'') \<and>
                                         (port l < newStart \<or> port l > newEnd)) (leases r)))), s)
      else if poolsGet r poolName = Missing then (Inl (PoolDoesNotExist poolName), s)
      else (Inr (poolName, newStart, newEnd),
            s\<lparr>registryFile :=
                 Some ((poolsSet r poolName \<lparr>rangeStart = newStart, rangeEnd = newEnd\<rparr>)
                         \<lparr>lastModified := Some (clock s)\<rparr>)\<rparr>))"
  by (simp add: poolUpdateLocked_def getRegistry_def updatePool_def saveRegistry_def Let_def)

lemma poolDeleteLocked_eq:
  "registryFile s = Some r \<Longrightarrow>
   poolDeleteLocked poolName s =
     (if poolsGet r poolName = Missing then (Inl (PoolDoesNotExist poolName), s)
      else if filter (\<lambda>l. pool l = poolName) (leases r) \<noteq> []
      then (Inl (PoolHasLeases poolName (length (filter (\<lambda>l. pool l = poolName) (leases r)))), s)
      else (Inr poolName,
            s\<lparr>registryFile := Some (r\<lparr>pools := (pools r)(poolName := None),
                                      lastModified := Some (clock s)\<rparr>)\<rparr>))"
  by (simp add: poolDeleteLocked_def getRegistry_def deletePool_def saveRegistry_def)

lemma poolsSet_cases:
  "poolsSet r name cfg =
     (if pools r name = None \<and> name = ''__proto__'' then r
      else r\<lparr>pools := (pools r)(name \<mapsto> cfg)\<rparr>)"
  by (simp add: poolsSet_def)

text \<open>
  Claim C6 (\<open>poolUpdate\<close> and the leases it would leave outside the range), as amended. On
  the registry file \<open>r\<close>, call a lease affected when its pool is the given name or that
  name followed by \<open>-https\<close> and its port is below the new start or above the new end.
  When some lease is affected, every call fails and the registry file is still \<open>r\<close>, pool
  ranges and leases alike. For a call with a name, two bounds other than 0 and the start
  below the end, once the lock is taken, the result is: the failure that counts the
  affected leases when there are some; otherwise the failure "does not exist" when
  \<open>registry.pools[name]\<close> is undefined, that is when the name is neither a key of \<open>pools\<close>
  nor a property that every object inherits; otherwise success, and the registry is stamped
  and saved with the new bounds stored under the name (under a key of \<open>pools\<close> in
  particular), the leases and the other pools as they were, except that the assignment
  stores nothing at the inherited name \<open>__proto__\<close>.
\<close>

theorem poolUpdate_range_check:
  assumes "registryFile s = Some r"
  shows
    "((\<exists>l \<in> set (leases r). (pool l = poolName \<or> pool l = poolName @ ''-https'') \<and>
                              (port l < newStart \<or> port l > newEnd)) \<longrightarrow>
        (\<exists>err. fst (poolUpdate poolName newStart newEnd s) = Inl err) \<and>
        registryFile (snd (poolUpdate poolName newStart newEnd s)) = Some r) \<and>
     (poolName \<noteq> [] \<and> newStart \<noteq> 0 \<and> newEnd \<noteq> 0 \<and> newStart < newEnd \<and>
      acquireLock 30000 s = (Inr (), s1) \<longrightarrow>
        poolUpdate poolName newStart newEnd s =
          (if filter (\<lambda>l. (pool l = poolName \<or> pool l = poolName @ ''-https'') \<and>
                            (port l < newStart \<or> port l > newEnd)) (leases r) \<noteq> []
           then (Inl (LeasesOutsideRange
                        (length (filter (\<lambda>l. (pool l = poolName \<or> pool l = poolName @ ''-https'') \<and>
                                              (port l < newStart \<or> port l > newEnd)) (leases r)))),
                 s1\<lparr>lockFile := None\<rparr>)
           else if pools r poolName = None \<and> poolName \<notin> set objectPrototypeNames
           then (Inl (PoolDoesNotExist poolName), s1\<lparr>lockFile := None\<rparr>)
           else if pools r poolName = None \<and> poolName = ''__proto__''
           then (Inr (poolName, newStart, newEnd),
                 s1\<lparr>registryFile := Some (r\<lparr>lastModified := Some (clock s1)\<rparr>), lockFile := None\<rparr>)
           else (Inr (poolName, newStart, newEnd),
                 s1\<lparr>registryFile :=
                      Some (r\<lparr>pools := (pools r)(poolName \<mapsto> \<lparr>rangeStart = newStart, rangeEnd = newEnd\<rparr>),
                              lastModified := Some (clock s1)\<rparr>),
                    lockFile := None\<rparr>)))"
proof (intro conjI impI)
  let ?aff = "\<lambda>l. (pool l = poolName \<or> pool l = poolName @ ''-https'') \<and>
                   (port l < newStart \<or> port l > newEnd)"
  assume "\<exists>l \<in> set (leases r). ?aff l"
  then have ne: "filter ?aff (leases r) \<noteq> []" by (simp add: filter_empty_conv)
  show "\<exists>err. fst (poolUpdate poolName newStart newEnd s) = Inl err"
  proof (cases "poolName = [] \<or> newStart = 0 \<or> newEnd = 0 \<or> newStart \<ge> newEnd")
    case True
    then show ?thesis by (auto simp: poolUpdate_def)
  next
    case False
    then have eq: "poolUpdate poolName newStart newEnd s =
        withLock (poolUpdateLocked poolName newStart newEnd) 30000 s"
      by (simp add: poolUpdate_def)
    show ?thesis
    proof (cases rule: withLock_cases [of 30000 s "poolUpdateLocked poolName newStart newEnd"])
      case (timeout err s1)
      with eq show ?thesis by simp
    next
      case (acquired s1)
      with assms have "registryFile s1 = Some r" by simp
      from poolUpdateLocked_eq [OF this, of poolName newStart newEnd] ne acquired(3) eq
      show ?thesis by simp
    qed
  qed
  show "registryFile (snd (poolUpdate poolName newStart newEnd s)) = Some r"
  proof (cases "poolName = [] \<or> newStart = 0 \<or> newEnd = 0 \<or> newStart \<ge> newEnd")
    case True
    then show ?thesis using assms by (auto simp: poolUpdate_def)
  next
    case False
    then have eq: "poolUpdate poolName newStart newEnd s =
        withLock (poolUpdateLocked poolName newStart newEnd) 30000 s"
      by (simp add: poolUpdate_def)
    show ?thesis
    proof (cases rule: withLock_cases [of 30000 s "poolUpdateLocked poolName newStart newEnd"])
      case (timeout err s1)
      with eq assms show ?thesis by simp
    next
      case (acquired s1)
      with assms have r1: "registryFile s1 = Some r" by simp
      from poolUpdateLocked_eq [OF r1, of poolName newStart newEnd] ne acquired(3) eq r1
      show ?thesis by simp
    qed
  qed
next
  assume a: "poolName \<noteq> [] \<and> newStart \<noteq> 0 \<and> newEnd \<noteq> 0 \<and> newStart < newEnd \<and>
      acquireLock 30000 s = (Inr (), s1)"
  then have r1: "registryFile s1 = Some r"
    using acquireLock_registryFile [of 30000 s "Inr ()" s1] assms by simp
  from a have "poolUpdate poolName newStart newEnd s =
      (fst (poolUpdateLocked poolName newStart newEnd s1),
       (snd (poolUpdateLocked poolName newStart newEnd s1))\<lparr>lockFile := None\<rparr>)"
    by (simp add: poolUpdate_def withLock_acquired)
  then show "poolUpdate poolName newStart newEnd s =
          (if filter (\<lambda>l. (pool l = poolName \<or> pool l = poolName @ ''-https'') \<and>
                            (port l < newStart \<or> port l > newEnd)) (leases r) \<noteq> []
           then (Inl (LeasesOutsideRange
                        (length (filter (\<lambda>l. (pool l = poolName \<or> pool l = poolName @ ''-https'') \<and>
                                              (port l < newStart \<or> port l > newEnd)) (leases r)))),
                 s1\<lparr>lockFile := None\<rparr>)
           else if pools r poolName = None \<and> poolName \<notin> set objectPrototypeNames
           then (Inl (PoolDoesNotExist poolName), s1\<lparr>lockFile := None\<rparr>)
           else if pools r poolName = None \<and> poolName = ''__proto__''
           then (Inr (poolName, newStart, newEnd),
                 s1\<lparr>registryFile := Some (r\<lparr>lastModified := Some (clock s1)\<rparr>), lockFile := None\<rparr>)
           else (Inr (poolName, newStart, newEnd),
                 s1\<lparr>registryFile :=
                      Some (r\<lparr>pools := (pools r)(poolName \<mapsto> \<lparr>rangeStart = newStart, rangeEnd = newEnd\<rparr>),
                              lastModified := Some (clock s1)\<rparr>),
                    lockFile := None\<rparr>))"
    unfolding poolUpdateLocked_eq [OF r1] poolsGet_Missing poolsSet_cases by auto
qed

text \<open>
  At \<open>httpsFs\<close> the pool \<open>backend\<close> has one lease of its own, at port 5300, and the
  registry holds a lease of a pool named \<open>backend-https\<close> at port 5400. No pool is named
  \<open>nosuch\<close> or \<open>valueOf\<close>; \<open>registry.pools['valueOf']\<close> is the function that every object
  inherits, so the update goes through and the saved file has a pool of that name.
\<close>

theorem poolUpdate_range_check_witness:
  "acquireLock 30000 httpsFs = (Inr (), httpsFs\<lparr>lockFile := Some 5\<rparr>) \<and>
   poolUpdate ''backend'' 5300 5399 httpsFs = (Inl (LeasesOutsideRange 1), httpsFs) \<and>
   registryFile (snd (poolUpdate ''backend'' 5300 5399 httpsFs)) =
     Some (getDefaultRegistry\<lparr>leases := [untaggedLease, httpsPoolLease]\<rparr>) \<and>
   poolUpdate ''backend'' 5350 5499 httpsFs = (Inl (LeasesOutsideRange 1), httpsFs) \<and>
   poolUpdate ''backend'' 5200 5599 httpsFs =
     (Inr (''backend'', 5200, 5599),
      httpsFs\<lparr>registryFile :=
        Some (getDefaultRegistry
               \<lparr>pools := (pools getDefaultRegistry)(''backend'' \<mapsto> \<lparr>rangeStart = 5200, rangeEnd = 5599\<rparr>),
                leases := [untaggedLease, httpsPoolLease], lastModified := Some 5\<rparr>)\<rparr>) \<and>
   poolUpdate ''nosuch'' 1 2 httpsFs = (Inl (PoolDoesNotExist ''nosuch''), httpsFs) \<and>
   poolUpdate ''valueOf'' 1 2 httpsFs =
     (Inr (''valueOf'', 1, 2),
      httpsFs\<lparr>registryFile :=
        Some (getDefaultRegistry
               \<lparr>pools := (pools getDefaultRegistry)(''valueOf'' \<mapsto> \<lparr>rangeStart = 1, rangeEnd = 2\<rparr>),
                leases := [untaggedLease, httpsPoolLease], lastModified := Some 5\<rparr>)\<rparr>)"
proof -
  let ?r = "getDefaultRegistry\<lparr>leases := [untaggedLease, httpsPoolLease]\<rparr>"
  have acq: "acquireLock 30000 httpsFs = (Inr (), httpsFs\<lparr>lockFile := Some 5\<rparr>)"
    using acquireLock_free [of httpsFs 30000] by simp
  have regfile: "registryFile httpsFs = Some ?r" by simp
  have aff: "\<exists>l \<in> set (leases ?r). (pool l = ''backend'' \<or> pool l = ''backend'' @ ''-https'') \<and>
                              (port l < 5300 \<or> port l > 5399)"
    by simp
  note t1 = poolUpdate_range_check [OF regfile, where poolName = "''backend''" and newStart = 5300
      and newEnd = 5399 and ?s1.0 = "httpsFs\<lparr>lockFile := Some 5\<rparr>"]
  have a: "poolUpdate ''backend'' 5300 5399 httpsFs = (Inl (LeasesOutsideRange 1), httpsFs)"
    using t1 acq by simp
  have b: "registryFile (snd (poolUpdate ''backend'' 5300 5399 httpsFs)) = Some ?r"
    using t1 aff by blast
  have c: "poolUpdate ''backend'' 5350 5499 httpsFs = (Inl (LeasesOutsideRange 1), httpsFs)"
    using poolUpdate_range_check [OF regfile, where poolName = "''backend''" and newStart = 5350
      and newEnd = 5499 and ?s1.0 = "httpsFs\<lparr>lockFile := Some 5\<rparr>"] acq
    by simp
  have d: "poolUpdate ''backend'' 5200 5599 httpsFs =
     (Inr (''backend'', 5200, 5599),
      httpsFs\<lparr>registryFile :=
        Some (getDefaultRegistry
               \<lparr>pools := (pools getDefaultRegistry)(''backend'' \<mapsto> \<lparr>rangeStart = 5200, rangeEnd = 5599\<rparr>),
                leases := [untaggedLease, httpsPoolLease], lastModified := Some 5\<rparr>)\<rparr>)"
    using poolUpdate_range_check [OF regfile, where poolName = "''backend''" and newStart = 5200
      and newEnd = 5599 and ?s1.0 = "httpsFs\<lparr>lockFile := Some 5\<rparr>"] acq
    by (simp add: getDefaultRegistry_def)
  have e: "poolUpdate ''nosuch'' 1 2 httpsFs = (Inl (PoolDoesNotExist ''nosuch''), httpsFs)"
    using poolUpdate_range_check [OF regfile, where poolName = "''nosuch''" and newStart = 1
      and newEnd = 2 and ?s1.0 = "httpsFs\<lparr>lockFile := Some 5\<rparr>"] acq
    by (simp add: getDefaultRegistry_def objectPrototypeNames_def)
  have f: "poolUpdate ''valueOf'' 1 2 httpsFs =
     (Inr (''valueOf'', 1, 2),
      httpsFs\<lparr>registryFile :=
        Some (getDefaultRegistry
               \<lparr>pools := (pools getDefaultRegistry)(''valueOf'' \<mapsto> \<lparr>rangeStart = 1, rangeEnd = 2\<rparr>),
                leases := [untaggedLease, httpsPoolLease], lastModified := Some 5\<rparr>)\<rparr>)"
    using poolUpdate_range_check [OF regfile, where poolName = "''valueOf''" and newStart = 1
      and newEnd = 2 and ?s1.0 = "httpsFs\<lparr>lockFile := Some 5\<rparr>"] acq
    by (simp add: getDefaultRegistry_def objectPrototypeNames_def)
  from acq a b c d e f show ?thesis by blast
qed

text \<open>
  The claim as stated promises the replacement whenever no lease is affected. The default
  registry has no lease at all, so none is affected by any update; yet the update of
  \<open>frontend\<close> to the bounds 3499 and 3300 fails on the order of the bounds and the update
  of \<open>nosuch\<close> fails because there is no such pool; both leave the file as it was, with the
  range 3300 to 3499 for \<open>frontend\<close> and no pool \<open>nosuch\<close>.
\<close>

theorem poolUpdate_range_check_counterexample:
  "registryFile freshFs = Some getDefaultRegistry \<and> leases getDefaultRegistry = [] \<and>
   pools getDefaultRegistry ''frontend'' = Some \<lparr>rangeStart = 3300, rangeEnd = 3499\<rparr> \<and>
   poolUpdate ''frontend'' 3499 3300 freshFs = (Inl RangeStartNotLess, freshFs) \<and>
   poolUpdate ''nosuch'' 1 2 freshFs = (Inl (PoolDoesNotExist ''nosuch''), freshFs)"
proof -
  have acq: "acquireLock 30000 freshFs = (Inr (), freshFs\<lparr>lockFile := Some 5\<rparr>)"
    using acquireLock_free [of freshFs 30000] by simp
  have a: "poolUpdate ''frontend'' 3499 3300 freshFs = (Inl RangeStartNotLess, freshFs)"
    by (simp add: poolUpdate_def)
  have b: "poolUpdate ''nosuch'' 1 2 freshFs = (Inl (PoolDoesNotExist ''nosuch''), freshFs)"
    using poolUpdateLocked_eq [of "freshFs\<lparr>lockFile := Some 5\<rparr>" getDefaultRegistry "''nosuch''" 1 2]
      withLock_acquired [OF acq, of "poolUpdateLocked ''nosuch'' 1 2"]
    by (simp add: poolUpdate_def poolsGet_def objectPrototypeNames_def getDefaultRegistry_def)
  have d: "leases getDefaultRegistry = []" by (simp add: getDefaultRegistry_def)
  have e: "pools getDefaultRegistry ''frontend'' = Some \<lparr>rangeStart = 3300, rangeEnd = 3499\<rparr>"
    by (simp add: getDefaultRegistry_def)
  from a b d e show ?thesis by simp
qed

text \<open>
  Claim C7 (\<open>poolDelete\<close> refuses a pool that has leases). On the registry file \<open>r\<close>: when
  some lease names the pool, every call fails and the registry file is still \<open>r\<close>, the pool
  with its range and every lease included (\<open>deletePool\<close> drops the pool from the copy in
  memory, which is not saved). For a call with a name, on a pool of the registry, once the
  lock is taken: the failure counts the leases of the pool; with no lease of the pool the
  call succeeds and saves the registry without that one entry of \<open>pools\<close>, the leases and
  the other pools being as they were.
\<close>

theorem poolDelete_guard:
  assumes "registryFile s = Some r"
  shows
    "(filter (\<lambda>l. pool l = poolName) (leases r) \<noteq> [] \<longrightarrow>
        (\<exists>err. fst (poolDelete poolName s) = Inl err) \<and>
        registryFile (snd (poolDelete poolName s)) = Some r) \<and>
     (poolName \<noteq> [] \<and> acquireLock 30000 s = (Inr (), s1) \<and> pools r poolName \<noteq> None \<longrightarrow>
        poolDelete poolName s =
          (if filter (\<lambda>l. pool l = poolName) (leases r) \<noteq> []
           then (Inl (PoolHasLeases poolName (length (filter (\<lambda>l. pool l = poolName) (leases r)))),
                 s1\<lparr>lockFile := None\<rparr>)
           else (Inr poolName,
                 s1\<lparr>registryFile :=
                      Some (r\<lparr>pools := (pools r)(poolName := None),
                              lastModified := Some (clock s1)\<rparr>),
                    lockFile := None\<rparr>)))"
proof (intro conjI impI)
  assume ne: "filter (\<lambda>l. pool l = poolName) (leases r) \<noteq> []"
  have both: "(\<exists>err. fst (poolDelete poolName s) = Inl err) \<and>
        registryFile (snd (poolDelete poolName s)) = Some r"
  proof (cases "poolName = []")
    case True
    then show ?thesis using assms by (simp add: poolDelete_def)
  next
    case False
    then have eq: "poolDelete poolName s = withLock (poolDeleteLocked poolName) 30000 s"
      by (simp add: poolDelete_def)
    show ?thesis
    proof (cases rule: withLock_cases [of 30000 s "poolDeleteLocked poolName"])
      case (timeout err s1)
      with eq assms show ?thesis by simp
    next
      case (acquired s1)
      with assms have r1: "registryFile s1 = Some r" by simp
      from poolDeleteLocked_eq [OF r1, of poolName] ne acquired(3) eq r1
      show ?thesis by simp
    qed
  qed
  from both show "\<exists>err. fst (poolDelete poolName s) = Inl err" by blast
  from both show "registryFile (snd (poolDelete poolName s)) = Some r" by blast
next
  assume a: "poolName \<noteq> [] \<and> acquireLock 30000 s = (Inr (), s1) \<and> pools r poolName \<noteq> None"
  then have r1: "registryFile s1 = Some r"
    using acquireLock_registryFile [of 30000 s "Inr ()" s1] assms by simp
  from a have "poolDelete poolName s =
      (fst (poolDeleteLocked poolName s1), (snd (poolDeleteLocked poolName s1))\<lparr>lockFile := None\<rparr>)"
    by (simp add: poolDelete_def withLock_acquired)
  then show "poolDelete poolName s =
          (if filter (\<lambda>l. pool l = poolName) (leases r) \<noteq> []
           then (Inl (PoolHasLeases poolName (length (filter (\<lambda>l. pool l = poolName) (leases r)))),
                 s1\<lparr>lockFile := None\<rparr>)
           else (Inr poolName,
                 s1\<lparr>registryFile :=
                      Some (r\<lparr>pools := (pools r)(poolName := None),
                              lastModified := Some (clock s1)\<rparr>),
                    lockFile := None\<rparr>))"
    unfolding poolDeleteLocked_eq [OF r1] using a by (auto simp: poolsGet_Missing)
qed

theorem poolDelete_guard_witness:
  "acquireLock 30000 oneLeaseFs = (Inr (), oneLeaseFs\<lparr>lockFile := Some 5\<rparr>) \<and>
   poolDelete ''frontend'' oneLeaseFs = (Inl (PoolHasLeases ''frontend'' 1), oneLeaseFs) \<and>
   registryFile (snd (poolDelete ''frontend'' oneLeaseFs)) =
     Some (getDefaultRegistry\<lparr>leases := [projLease]\<rparr>) \<and>
   poolDelete ''storybook'' oneLeaseFs =
     (Inr ''storybook'',
      oneLeaseFs\<lparr>registryFile :=
        Some (getDefaultRegistry
               \<lparr>pools := (pools getDefaultRegistry)(''storybook'' := None),
                leases := [projLease], lastModified := Some 5\<rparr>)\<rparr>)"
proof -
  let ?r = "getDefaultRegistry\<lparr>leases := [projLease]\<rparr>"
  have acq: "acquireLock 30000 oneLeaseFs = (Inr (), oneLeaseFs\<lparr>lockFile := Some 5\<rparr>)"
    using acquireLock_free [of oneLeaseFs 30000] by simp
  have regfile: "registryFile oneLeaseFs = Some ?r" by simp
  have ne: "filter (\<lambda>l. pool l = ''frontend'') (leases ?r) \<noteq> []" by simp
  note t1 = poolDelete_guard [OF regfile, where poolName = "''frontend''"
      and ?s1.0 = "oneLeaseFs\<lparr>lockFile := Some 5\<rparr>"]
  have a: "poolDelete ''frontend'' oneLeaseFs = (Inl (PoolHasLeases ''frontend'' 1), oneLeaseFs)"
    using t1 acq by (simp add: getDefaultRegistry_def)
  have b: "registryFile (snd (poolDelete ''frontend'' oneLeaseFs)) = Some ?r"
    using t1 ne by blast
  have c: "poolDelete ''storybook'' oneLeaseFs =
     (Inr ''storybook'',
      oneLeaseFs\<lparr>registryFile :=
        Some (getDefaultRegistry
               \<lparr>pools := (pools getDefaultRegistry)(''storybook'' := None),
                leases := [projLease], lastModified := Some 5\<rparr>)\<rparr>)"
    using poolDelete_guard [OF regfile, where poolName = "''storybook''"
      and ?s1.0 = "oneLeaseFs\<lparr>lockFile := Some 5\<rparr>"] acq
    by (simp add: getDefaultRegistry_def)
  from acq a b c show ?thesis by blast
qed

lemma default_pools_nonzero:
  "pools getDefaultRegistry n = Some cfg \<Longrightarrow> rangeStart cfg \<noteq> 0 \<and> rangeEnd cfg \<noteq> 0"
  by (auto simp: getDefaultRegistry_def split: if_splits)

lemma getRegistry_zero_bound:
  "pools (fst (getRegistry s)) n = Some cfg \<Longrightarrow> rangeStart cfg = 0 \<or> rangeEnd cfg = 0 \<Longrightarrow>
   \<exists>r. registryFile s = Some r \<and> pools r n = Some cfg"
  using default_pools_nonzero [of n cfg]
  by (cases "registryFile s") (auto simp: getRegistry_def initRegistry_def Let_def)

lemma getRegistry_file:
  "registryFile (snd (getRegistry s)) = Some (fst (getRegistry s))"
  by (cases "registryFile s") (auto simp: getRegistry_def initRegistry_def Let_def)

lemma poolAddLocked_pools:
  assumes "registryFile (snd (poolAddLocked poolName newStart newEnd s)) = Some r'"
    and "pools r' n = Some cfg"
  shows "(n = poolName \<and> cfg = \<lparr>rangeStart = newStart, rangeEnd = newEnd\<rparr>) \<or>
         pools (fst (getRegistry s)) n = Some cfg"
  using assms getRegistry_file [of s]
  by (cases "getRegistry s")
     (auto simp: poolAddLocked_def addPool_def poolsSet_def saveRegistry_def split: if_splits)

lemma poolUpdateLocked_pools:
  assumes "registryFile (snd (poolUpdateLocked poolName newStart newEnd s)) = Some r'"
    and "pools r' n = Some cfg"
  shows "(n = poolName \<and> cfg = \<lparr>rangeStart = newStart, rangeEnd = newEnd\<rparr>) \<or>
         pools (fst (getRegistry s)) n = Some cfg"
  using assms getRegistry_file [of s]
  by (cases "getRegistry s")
     (auto simp: poolUpdateLocked_def updatePool_def poolsSet_def saveRegistry_def Let_def
           split: if_splits)

lemma locked_zero_bound:
  assumes step: "\<And>s1 r' n cfg. registryFile (snd (fn s1)) = Some r' \<Longrightarrow> pools r' n = Some cfg \<Longrightarrow>
             (n = poolName \<and> cfg = \<lparr>rangeStart = newStart, rangeEnd = newEnd\<rparr>) \<or>
             pools (fst (getRegistry s1)) n = Some cfg"
    and nz: "newStart \<noteq> 0" "newEnd \<noteq> 0"
    and after: "registryFile (snd (withLock fn 30000 s)) = Some r'" "pools r' n = Some cfg"
    and zero: "rangeStart cfg = 0 \<or> rangeEnd cfg = 0"
  shows "\<exists>r. registryFile s = Some r \<and> pools r n = Some cfg"
proof (cases rule: withLock_cases [of 30000 s fn])
  case (timeout err s1)
  with after show ?thesis by simp
next
  case (acquired s1)
  with after have "registryFile (snd (fn s1)) = Some r'" by simp
  from step [OF this after(2)] nz zero
  have "pools (fst (getRegistry s1)) n = Some cfg" by auto
  from getRegistry_zero_bound [OF this zero] acquired(2) show ?thesis by simp
qed

text \<open>
  Claim C10 (a bound of 0 counts as a missing argument). \<open>poolAdd\<close> and \<open>poolUpdate\<close> test
  \<open>!poolName || !rangeStart || !rangeEnd\<close>: a call with an empty name or with either bound
  equal to 0 fails with the "required" error and touches nothing, also when the start is 0
  and the end is positive. So whatever the call and its outcome, a pool of the registry
  file with a bound equal to 0 after the call was in the file before it, with the same
  bounds: neither function creates one or gives one to a pool.
\<close>

theorem pool_zero_bound_rejected:
  "(poolName = [] \<or> newStart = 0 \<or> newEnd = 0 \<longrightarrow>
      poolAdd poolName newStart newEnd s = (Inl PoolArgsRequired, s) \<and>
      poolUpdate poolName newStart newEnd s = (Inl PoolArgsRequired, s)) \<and>
   (\<forall>s' \<in> {snd (poolAdd poolName newStart newEnd s), snd (poolUpdate poolName newStart newEnd s)}.
      \<forall>r' n cfg. registryFile s' = Some r' \<and> pools r' n = Some cfg \<and>
                  (rangeStart cfg = 0 \<or> rangeEnd cfg = 0) \<longrightarrow>
        (\<exists>r. registryFile s = Some r \<and> pools r n = Some cfg))"
proof (intro conjI impI ballI allI)
  assume "poolName = [] \<or> newStart = 0 \<or> newEnd = 0"
  then show "poolAdd poolName newStart newEnd s = (Inl PoolArgsRequired, s)"
    by (simp add: poolAdd_def)
next
  assume "poolName = [] \<or> newStart = 0 \<or> newEnd = 0"
  then show "poolUpdate poolName newStart newEnd s = (Inl PoolArgsRequired, s)"
    by (simp add: poolUpdate_def)
next
  fix s' r' n cfg
  assume s': "s' \<in> {snd (poolAdd poolName newStart newEnd s), snd (poolUpdate poolName newStart newEnd s)}"
    and a: "registryFile s' = Some r' \<and> pools r' n = Some cfg \<and> (rangeStart cfg = 0 \<or> rangeEnd cfg = 0)"
  show "\<exists>r. registryFile s = Some r \<and> pools r n = Some cfg"
  proof (cases "poolName = [] \<or> newStart = 0 \<or> newEnd = 0 \<or> newStart \<ge> newEnd")
    case True
    then have "s' = s" using s' by (auto simp: poolAdd_def poolUpdate_def)
    with a show ?thesis by simp
  next
    case False
    then have eqs: "poolAdd poolName newStart newEnd s =
          withLock (poolAddLocked poolName newStart newEnd) 30000 s"
        "poolUpdate poolName newStart newEnd s =
          withLock (poolUpdateLocked poolName newStart newEnd) 30000 s"
      by (simp_all add: poolAdd_def poolUpdate_def)
    from s' consider "s' = snd (poolAdd poolName newStart newEnd s)"
      | "s' = snd (poolUpdate poolName newStart newEnd s)" by auto
    then show ?thesis
    proof cases
      case 1
      with a eqs have "registryFile (snd (withLock (poolAddLocked poolName newStart newEnd) 30000 s)) = Some r'"
        by simp
      moreover have "\<And>s1 r' n cfg.
          registryFile (snd (poolAddLocked poolName newStart newEnd s1)) = Some r' \<Longrightarrow>
          pools r' n = Some cfg \<Longrightarrow>
          (n = poolName \<and> cfg = \<lparr>rangeStart = newStart, rangeEnd = newEnd\<rparr>) \<or>
          pools (fst (getRegistry s1)) n = Some cfg"
        by (rule poolAddLocked_pools)
      ultimately show ?thesis
        using locked_zero_bound [where fn = "poolAddLocked poolName newStart newEnd"
            and poolName = poolName and newStart = newStart and newEnd = newEnd
            and s = s and r' = r' and n = n and cfg = cfg] False a
        by blast
    next
      case 2
      with a eqs have "registryFile (snd (withLock (poolUpdateLocked poolName newStart newEnd) 30000 s)) = Some r'"
        by simp
      moreover have "\<And>s1 r' n cfg.
          registryFile (snd (poolUpdateLocked poolName newStart newEnd s1)) = Some r' \<Longrightarrow>
          pools r' n = Some cfg \<Longrightarrow>
          (n = poolName \<and> cfg = \<lparr>rangeStart = newStart, rangeEnd = newEnd\<rparr>) \<or>
          pools (fst (getRegistry s1)) n = Some cfg"
        by (rule poolUpdateLocked_pools)
      ultimately show ?thesis
        using locked_zero_bound [where fn = "poolUpdateLocked poolName newStart newEnd"
            and poolName = poolName and newStart = newStart and newEnd = newEnd
            and s = s and r' = r' and n = n and cfg = cfg] False a
        by blast
    qed
  qed
qed

text \<open>
  \<open>zeroPoolRegistry\<close> is a registry file written by hand with a pool that starts at 0:
  the pool is still there after \<open>poolAdd\<close> adds another one, and it was there before.
\<close>

theorem pool_zero_bound_rejected_witness:
  "poolAdd ''p'' 0 10 oneLeaseFs = (Inl PoolArgsRequired, oneLeaseFs) \<and>
   poolUpdate ''frontend'' 0 10 oneLeaseFs = (Inl PoolArgsRequired, oneLeaseFs) \<and>
   poolAdd ''q'' 1 2 zeroPoolFs =
     (Inr (''q'', 1, 2),
      zeroPoolFs\<lparr>registryFile :=
        Some (zeroPoolRegistry\<lparr>pools := (pools zeroPoolRegistry)(''q'' \<mapsto> \<lparr>rangeStart = 1, rangeEnd = 2\<rparr>),
                              lastModified := Some 5\<rparr>)\<rparr>) \<and>
   (\<exists>r. registryFile zeroPoolFs = Some r \<and> pools r ''z'' = Some \<lparr>rangeStart = 0, rangeEnd = 10\<rparr>)"
proof -
  let ?r' = "zeroPoolRegistry\<lparr>pools := (pools zeroPoolRegistry)(''q'' \<mapsto> \<lparr>rangeStart = 1, rangeEnd = 2\<rparr>),
                              lastModified := Some 5\<rparr>"
  have acq: "acquireLock 30000 zeroPoolFs = (Inr (), zeroPoolFs\<lparr>lockFile := Some 5\<rparr>)"
    using acquireLock_free [of zeroPoolFs 30000] by simp
  have add: "poolAdd ''q'' 1 2 zeroPoolFs = (Inr (''q'', 1, 2), zeroPoolFs\<lparr>registryFile := Some ?r'\<rparr>)"
    using poolAdd_acquired [OF _ _ _ _ acq, of "''q''" 1 2]
      poolAddLocked_eq [of "zeroPoolFs\<lparr>lockFile := Some 5\<rparr>" zeroPoolRegistry "''q''" 1 2]
    by (simp add: poolsGet_def objectPrototypeNames_def)
  note t1 = pool_zero_bound_rejected [of "''p''" 0 10 oneLeaseFs]
  note t2 = pool_zero_bound_rejected [of "''frontend''" 0 10 oneLeaseFs]
  note t3 = pool_zero_bound_rejected [of "''q''" 1 2 zeroPoolFs]
  have a: "poolAdd ''p'' 0 10 oneLeaseFs = (Inl PoolArgsRequired, oneLeaseFs)" using t1 by simp
  have b: "poolUpdate ''frontend'' 0 10 oneLeaseFs = (Inl PoolArgsRequired, oneLeaseFs)" using t2 by simp
  have mem: "snd (poolAdd ''q'' 1 2 zeroPoolFs) \<in>
      {snd (poolAdd ''q'' 1 2 zeroPoolFs), snd (poolUpdate ''q'' 1 2 zeroPoolFs)}" by simp
  have after: "registryFile (snd (poolAdd ''q'' 1 2 zeroPoolFs)) = Some ?r' \<and>
      pools ?r' ''z'' = Some \<lparr>rangeStart = 0, rangeEnd = 10\<rparr> \<and>
      (rangeStart \<lparr>rangeStart = 0, rangeEnd = 10\<rparr> = 0 \<or> rangeEnd \<lparr>rangeStart = 0, rangeEnd = (10::int)\<rparr> = 0)"
    using add by simp
  from t3 mem after
  have c: "\<exists>r. registryFile zeroPoolFs = Some r \<and> pools r ''z'' = Some \<lparr>rangeStart = 0, rangeEnd = 10\<rparr>"
    by blast
  from a b add c show ?thesis by blast
qed

section \<open>Stale leases\<close>

lemma findStaleLoop_mem:
  "(l, reason) \<in> set (findStaleLoop pathExists isPortInUse days now ls) \<longleftrightarrow>
   l \<in> set ls \<and> staleness pathExists isPortInUse days now l = Some reason"
  by (induction ls) (auto split: option.splits)

lemma findStaleLeases_mem:
  "(l, reason) \<in> set (findStaleLeases pathExists now r isPortInUse days) \<longleftrightarrow>
   l \<in> set (leases r) \<and> staleness pathExists isPortInUse days now l = Some reason"
  by (simp add: findStaleLeases_def findStaleLoop_mem)

lemma staleness_rule:
  "staleness pathExists (Some probe) 7 now l = Some reason \<longleftrightarrow>
   (if worktreePath l \<noteq> [] \<and> \<not> pathExists (worktreePath l) then reason = WorktreeMissing
    else (\<exists>t. leasedAt l = Some t \<and> now - t > 604800000) \<and> \<not> probe (port l) \<and>
         reason = OlderThanDays 7)"
  by (auto simp: staleness_def staleThresholdMs_def split: option.splits)

text \<open>
  Claim C5 (the staleness rule), as amended. \<open>cleanup\<close> calls \<open>findStaleLeases\<close> with its
  probe and the default threshold of 7 days, that is 604800000 ms. A lease of the registry
  is listed, with its reason, exactly when either its \<open>worktreePath\<close> is not empty and does
  not exist (reason: the worktree is missing), or else, that first test having failed, its
  \<open>leasedAt\<close> is more than 7 days before now and the probe reports its port as not in use
  (reason: older than 7 days). So a lease is listed under some reason exactly when one of
  the two conditions holds. In particular a lease whose \<open>worktreePath\<close> is empty or exists
  is never listed when it is at most 7 days old, and never listed when its port is
  reported in use, however old it is.
\<close>

theorem stale_rule:
  "((l, reason) \<in> set (findStaleLeases (existsSync e) now r (Some (portChecker e)) 7) \<longleftrightarrow>
      l \<in> set (leases r) \<and>
      (if worktreePath l \<noteq> [] \<and> \<not> existsSync e (worktreePath l) then reason = WorktreeMissing
       else (\<exists>t. leasedAt l = Some t \<and> now - t > 604800000) \<and> \<not> portChecker e (port l) \<and>
            reason = OlderThanDays 7)) \<and>
   ((\<exists>why. (l, why) \<in> set (findStaleLeases (existsSync e) now r (Some (portChecker e)) 7)) \<longleftrightarrow>
      l \<in> set (leases r) \<and>
      ((worktreePath l \<noteq> [] \<and> \<not> existsSync e (worktreePath l)) \<or>
       ((\<exists>t. leasedAt l = Some t \<and> now - t > 604800000) \<and> \<not> portChecker e (port l)))) \<and>
   ((\<exists>t. leasedAt l = Some t \<and> now - t \<le> 604800000) \<and>
    (worktreePath l = [] \<or> existsSync e (worktreePath l)) \<longrightarrow>
      (l, reason) \<notin> set (findStaleLeases (existsSync e) now r (Some (portChecker e)) 7)) \<and>
   ((\<exists>t. leasedAt l = Some t \<and> now - t > 604800000) \<and> portChecker e (port l) \<and>
    (worktreePath l = [] \<or> existsSync e (worktreePath l)) \<longrightarrow>
      (l, reason) \<notin> set (findStaleLeases (existsSync e) now r (Some (portChecker e)) 7))"
  unfolding findStaleLeases_mem staleness_rule by auto

theorem stale_rule_witness:
  "(projLease, OlderThanDays 7) \<in>
     set (findStaleLeases (existsSync quietEnv) 691200000 (getDefaultRegistry\<lparr>leases := [projLease]\<rparr>)
            (Some (portChecker quietEnv)) 7) \<and>
   (projLease, OlderThanDays 7) \<notin>
     set (findStaleLeases (existsSync quietEnv) 604800000 (getDefaultRegistry\<lparr>leases := [projLease]\<rparr>)
            (Some (portChecker quietEnv)) 7) \<and>
   (projLease, OlderThanDays 7) \<notin>
     set (findStaleLeases (existsSync busyEnv) 691200000 (getDefaultRegistry\<lparr>leases := [projLease]\<rparr>)
            (Some (portChecker busyEnv)) 7)"
proof -
  let ?r = "getDefaultRegistry\<lparr>leases := [projLease]\<rparr>"
  have a: "(projLease, OlderThanDays 7) \<in>
      set (findStaleLeases (existsSync quietEnv) 691200000 ?r (Some (portChecker quietEnv)) 7)"
    using stale_rule [of projLease "OlderThanDays 7" quietEnv 691200000 ?r] by simp
  have b: "(projLease, OlderThanDays 7) \<notin>
      set (findStaleLeases (existsSync quietEnv) 604800000 ?r (Some (portChecker quietEnv)) 7)"
    using stale_rule [of projLease "OlderThanDays 7" quietEnv 604800000 ?r] by simp
  have c: "(projLease, OlderThanDays 7) \<notin>
      set (findStaleLeases (existsSync busyEnv) 691200000 ?r (Some (portChecker busyEnv)) 7)"
    using stale_rule [of projLease "OlderThanDays 7" busyEnv 691200000 ?r] by simp
  from a b c show ?thesis by blast
qed

text \<open>
  The claim as stated says that a lease more than 7 days old whose port is reported in
  use is never listed. \<open>goneLease\<close> is 8 days old at 691200000 ms and its port 3300 is
  reported in use, but its worktree \<open>/gone\<close> does not exist: it is listed, for the missing
  worktree, since the worktree test comes first and does not ask the probe.
\<close>

theorem stale_rule_counterexample:
  "691200000 - 0 > staleThresholdMs 7 \<and> portChecker goneEnv 3300 \<and>
   findStaleLeases (existsSync goneEnv) 691200000 (getDefaultRegistry\<lparr>leases := [goneLease]\<rparr>)
     (Some (portChecker goneEnv)) 7 = [(goneLease, WorktreeMissing)]"
  by (simp add: findStaleLeases_def staleness_def staleThresholdMs_def)

section \<open>Cleanup\<close>

lemma findStaleLoop_leases:
  "map fst (findStaleLoop pathExists isPortInUse days now ls) =
   filter (\<lambda>l. staleness pathExists isPortInUse days now l \<noteq> None) ls"
  by (induction ls) (auto split: option.splits)

lemma length_filter_mono:
  "(\<And>x. x \<in> set xs \<Longrightarrow> P x \<Longrightarrow> Q x) \<Longrightarrow> length (filter P xs) \<le> length (filter Q xs)"
  by (induction xs) auto

lemma stale_count_le:
  assumes "findStaleLeases pathExists now r isPortInUse days = stale"
  shows "length stale \<le> length (filter (\<lambda>l. port l \<in> port ` fst ` set stale) (leases r))"
proof -
  let ?S = "\<lambda>l. staleness pathExists isPortInUse days now l \<noteq> None"
  have m: "map fst stale = filter ?S (leases r)"
    using assms findStaleLoop_leases [of pathExists isPortInUse days now "leases r"]
    by (simp add: findStaleLeases_def)
  have "length stale = length (map fst stale)" by simp
  also have "\<dots> = length (filter ?S (leases r))" by (simp only: m)
  also have "\<dots> \<le> length (filter (\<lambda>l. port l \<in> port ` fst ` set stale) (leases r))"
  proof (rule length_filter_mono)
    fix l assume "l \<in> set (leases r)" and "?S l"
    then have "l \<in> set (map fst stale)" by (simp only: m) simp
    then show "port l \<in> port ` fst ` set stale" by auto
  qed
  finally show ?thesis .
qed

lemma cleanupLocked_live:
  assumes "registryFile s = Some r"
    and "findStaleLeases (existsSync e) (clock s) r (Some (portChecker e)) 7 = stale"
    and "stale \<noteq> []"
  shows "cleanupLocked e False s =
     (Inr (stale,
           length (leases r) - length (filter (\<lambda>l. port l \<notin> port ` fst ` set stale) (leases r)),
           None),
      s\<lparr>registryFile :=
           Some (r\<lparr>leases := filter (\<lambda>l. port l \<notin> port ` fst ` set stale) (leases r),
                   lastModified := Some (clock s)\<rparr>)\<rparr>)"
proof -
  have "set (map (\<lambda>item. port (fst item)) stale) = port ` fst ` set stale" by auto
  with assms show ?thesis
    by (simp add: cleanupLocked_def getRegistry_def removeStaleLeases_def saveRegistry_def Let_def
        del: set_map)
qed

lemma cleanup_twin:
  "cleanup goneEnv False twinFs =
     (Inr ([(goneLease, WorktreeMissing)], 2, None),
      twinFs\<lparr>registryFile := Some (getDefaultRegistry\<lparr>leases := [otherLease], lastModified := Some 5\<rparr>)\<rparr>)"
proof -
  have acq: "acquireLock 30000 twinFs = (Inr (), twinFs\<lparr>lockFile := Some 5\<rparr>)"
    using acquireLock_free [of twinFs 30000] by simp
  have st: "findStaleLeases (existsSync goneEnv) 5 (getDefaultRegistry\<lparr>leases := [goneLease, twinLease, otherLease]\<rparr>)
       (Some (portChecker goneEnv)) 7 = [(goneLease, WorktreeMissing)]"
    by (simp add: findStaleLeases_def staleness_def staleThresholdMs_def)
  show ?thesis
    using withLock_acquired [OF acq, of "cleanupLocked goneEnv False"]
      cleanupLocked_live [of "twinFs\<lparr>lockFile := Some 5\<rparr>" _ goneEnv "[(goneLease, WorktreeMissing)]"] st
    by (simp add: cleanup_def)
qed

text \<open>
  Claim C9 (a live cleanup removes by port). Once the lock is taken, on the registry file
  \<open>r\<close>, when \<open>findStaleLeases\<close> lists at least one lease: the run that is not a dry run
  keeps exactly the leases whose port is the port of no listed lease, saves them, and
  returns as \<open>removedCount\<close> the number of leases whose port is the port of a listed lease.
  So a lease that shares its port with a listed lease is removed, listed or not, and
  \<open>removedCount\<close> is at least the number of listed leases; it can be larger, as the
  registry of \<open>twinFs\<close> shows, where one lease is listed and two are removed.
\<close>

theorem cleanup_removes_by_port:
  assumes "acquireLock 30000 s = (Inr (), s1)" and "registryFile s = Some r"
    and "findStaleLeases (existsSync e) (clock s1) r (Some (portChecker e)) 7 = stale"
    and "stale \<noteq> []"
  shows
    "cleanup e False s =
       (Inr (stale, length (filter (\<lambda>l. port l \<in> port ` fst ` set stale) (leases r)), None),
        s1\<lparr>registryFile :=
             Some (r\<lparr>leases := filter (\<lambda>l. port l \<notin> port ` fst ` set stale) (leases r),
                     lastModified := Some (clock s1)\<rparr>),
           lockFile := None\<rparr>) \<and>
     (\<forall>l \<in> set (leases r). \<forall>x \<in> set stale. port l = port (fst x) \<longrightarrow>
        l \<notin> set (filter (\<lambda>l. port l \<notin> port ` fst ` set stale) (leases r))) \<and>
     length stale \<le> length (filter (\<lambda>l. port l \<in> port ` fst ` set stale) (leases r)) \<and>
     (\<exists>e' s' listed removedCount dryRun s''.
        cleanup e' False s' = (Inr (listed, removedCount, dryRun), s'') \<and>
        length listed < removedCount)"
proof (intro conjI)
  have r1: "registryFile s1 = Some r"
    using acquireLock_registryFile [OF assms(1)] assms(2) by simp
  show "cleanup e False s =
       (Inr (stale, length (filter (\<lambda>l. port l \<in> port ` fst ` set stale) (leases r)), None),
        s1\<lparr>registryFile :=
             Some (r\<lparr>leases := filter (\<lambda>l. port l \<notin> port ` fst ` set stale) (leases r),
                     lastModified := Some (clock s1)\<rparr>),
           lockFile := None\<rparr>)"
    using withLock_acquired [OF assms(1), of "cleanupLocked e False"]
      cleanupLocked_live [OF r1 assms(3,4)]
      removed_count [of "leases r" "\<lambda>l. port l \<in> port ` fst ` set stale"]
    by (simp add: cleanup_def)
  show "\<forall>l \<in> set (leases r). \<forall>x \<in> set stale. port l = port (fst x) \<longrightarrow>
        l \<notin> set (filter (\<lambda>l. port l \<notin> port ` fst ` set stale) (leases r))"
    by auto
  show "length stale \<le> length (filter (\<lambda>l. port l \<in> port ` fst ` set stale) (leases r))"
    by (rule stale_count_le [OF assms(3)])
  show "\<exists>e' s' listed removedCount dryRun s''.
        cleanup e' False s' = (Inr (listed, removedCount, dryRun), s'') \<and>
        length listed < removedCount"
    using cleanup_twin by (intro exI [where x = goneEnv] exI [where x = twinFs]) fastforce
qed

theorem cleanup_removes_by_port_witness:
  "acquireLock 30000 twinFs = (Inr (), twinFs\<lparr>lockFile := Some 5\<rparr>) \<and>
   findStaleLeases (existsSync goneEnv) 5 (getDefaultRegistry\<lparr>leases := [goneLease, twinLease, otherLease]\<rparr>)
     (Some (portChecker goneEnv)) 7 = [(goneLease, WorktreeMissing)] \<and>
   cleanup goneEnv False twinFs =
     (Inr ([(goneLease, WorktreeMissing)], 2, None),
      twinFs\<lparr>registryFile := Some (getDefaultRegistry\<lparr>leases := [otherLease], lastModified := Some 5\<rparr>)\<rparr>)"
proof -
  let ?r = "getDefaultRegistry\<lparr>leases := [goneLease, twinLease, otherLease]\<rparr>"
  have acq: "acquireLock 30000 twinFs = (Inr (), twinFs\<lparr>lockFile := Some 5\<rparr>)"
    using acquireLock_free [of twinFs 30000] by simp
  have st: "findStaleLeases (existsSync goneEnv) (clock (twinFs\<lparr>lockFile := Some 5\<rparr>)) ?r
       (Some (portChecker goneEnv)) 7 = [(goneLease, WorktreeMissing)]"
    by (simp add: findStaleLeases_def staleness_def staleThresholdMs_def)
  have ne: "[(goneLease, WorktreeMissing)] \<noteq> []" by simp
  have regfile: "registryFile twinFs = Some ?r" by simp
  from cleanup_removes_by_port [OF acq regfile st ne]
  have "cleanup goneEnv False twinFs =
     (Inr ([(goneLease, WorktreeMissing)], 2, None),
      twinFs\<lparr>registryFile := Some (getDefaultRegistry\<lparr>leases := [otherLease], lastModified := Some 5\<rparr>)\<rparr>)"
    by simp
  with acq st show ?thesis by simp
qed

end
